theory Spec2Isabelle
  imports Main "HOL-Library.Sublist"
begin

section \<open>AI-OCR: the streaming client of the recognition page\<close>

text \<open>
  The repository holds two variants of the page script: \<^verbatim>\<open>src/static/js/main.js\<close> (one
  collapsible reasoning area) and \<^verbatim>\<open>src/unnamed/part_000\<close> (a reasoning box and an
  output box that exclude each other). Functions that are the same in both are modelled
  once; functions whose bodies differ carry the suffix \<open>_main\<close> or \<open>_p000\<close>.

  Text is a \<open>string\<close>: one \<open>char\<close> stands for one code unit of a JavaScript string, so
  the model covers code units up to 255. \<^verbatim>\<open>scrollTo\<close>, which only moves the viewport, is
  left out.
\<close>

subsection \<open>String operations of the platform\<close>

definition NL :: char where
  "NL = CHR 0x0A"

text \<open>
  \<^verbatim>\<open>s.split("\n")\<close>: never empty; the last piece is what follows the last newline. A
  character that is not a newline joins the first piece of the rest (the rest always has
  one, so the branch for \<open>[]\<close> is never taken).
\<close>

fun split_nl :: "string \<Rightarrow> string list" where
  "split_nl [] = [[]]"
| "split_nl (c # cs) =
     (if c = NL then [] # split_nl cs
      else (case split_nl cs of [] \<Rightarrow> [[c]] | l # ls \<Rightarrow> (c # l) # ls))"

text \<open>The white space and line terminators that \<^verbatim>\<open>trim\<close> removes, among code units up to 255.\<close>

definition is_ws :: "char \<Rightarrow> bool" where
  "is_ws c \<longleftrightarrow> c \<in> {CHR 0x09, CHR 0x0A, CHR 0x0B, CHR 0x0C, CHR 0x0D, CHR 0x20, CHR 0xA0}"

definition trim :: "string \<Rightarrow> string" where
  "trim s = rev (dropWhile is_ws (rev (dropWhile is_ws s)))"

definition startsWith :: "string \<Rightarrow> string \<Rightarrow> bool" where
  "startsWith s p \<longleftrightarrow> take (length p) s = p"

definition endsWith :: "string \<Rightarrow> string \<Rightarrow> bool" where
  "endsWith s p \<longleftrightarrow> length p \<le> length s \<and> drop (length s - length p) s = p"

text \<open>
  \<^verbatim>\<open>s.substring(a, b)\<close>: both indices are clamped to the length and swapped when the
  first is the larger. An index that is negative in JavaScript is clamped to 0, which is
  what the truncating subtraction of \<open>nat\<close> gives the caller below.
\<close>

definition substring :: "string \<Rightarrow> nat \<Rightarrow> nat \<Rightarrow> string" where
  "substring s a b =
     (let a' = min a (length s); b' = min b (length s);
          lo = min a' b'; hi = max a' b'
      in take (hi - lo) (drop lo s))"

text \<open>The decimal digits of a number, as a template literal prints an integer.\<close>

fun show_nat :: "nat \<Rightarrow> string" where
  "show_nat n =
     (if n < 10 then [char_of (48 + n)]
      else show_nat (n div 10) @ [char_of (48 + n mod 10)])"

declare show_nat.simps [simp del]

subsection \<open>Values that \<^verbatim>\<open>JSON.parse\<close> returns\<close>

text \<open>
  A number is held as the text \<^verbatim>\<open>ToString\<close> gives it, which is all this code observes
  of one: a zero of either sign is \<open>''0''\<close>. An object is the list of its own properties,
  one binding per key.
\<close>

datatype json =
    JNull
  | JBool bool
  | JNum string
  | JStr string
  | JArr "json list"
  | JObj "(string \<times> json) list"

text \<open>\<^verbatim>\<open>ToBoolean\<close>.\<close>

fun truthy :: "json \<Rightarrow> bool" where
  "truthy JNull = False"
| "truthy (JBool b) = b"
| "truthy (JNum t) = (t \<noteq> ''0'' \<and> t \<noteq> ''NaN'')"
| "truthy (JStr s) = (s \<noteq> [])"
| "truthy (JArr xs) = True"
| "truthy (JObj kvs) = True"

text \<open>
  \<^verbatim>\<open>v.key\<close> for a value that is not \<^verbatim>\<open>null\<close>, for the keys this code reads
  (\<^verbatim>\<open>type\<close>, \<^verbatim>\<open>delta\<close>, \<^verbatim>\<open>choices\<close>, \<^verbatim>\<open>content\<close>, \<^verbatim>\<open>reasoning\<close>,
  \<^verbatim>\<open>error\<close>): none of them is a property of a prototype, so only an object's own
  property answers. \<open>None\<close> is \<^verbatim>\<open>undefined\<close>.
\<close>

fun get_prop :: "json \<Rightarrow> string \<Rightarrow> json option" where
  "get_prop (JObj kvs) k = map_of kvs k"
| "get_prop v k = None"

text \<open>\<^verbatim>\<open>v[0]\<close> for a value that is neither \<^verbatim>\<open>null\<close> nor \<^verbatim>\<open>undefined\<close>.\<close>

fun index0 :: "json \<Rightarrow> json option" where
  "index0 (JArr xs) = (case xs of [] \<Rightarrow> None | x # _ \<Rightarrow> Some x)"
| "index0 (JObj kvs) = map_of kvs ''0''"
| "index0 (JStr s) = (case s of [] \<Rightarrow> None | c # _ \<Rightarrow> Some (JStr [c]))"
| "index0 v = None"

text \<open>\<^verbatim>\<open>x?.key\<close>: \<^verbatim>\<open>undefined\<close> when \<open>x\<close> is \<^verbatim>\<open>undefined\<close> or \<^verbatim>\<open>null\<close>.\<close>

fun opt_chain :: "json option \<Rightarrow> string \<Rightarrow> json option" where
  "opt_chain None k = None"
| "opt_chain (Some JNull) k = None"
| "opt_chain (Some v) k = get_prop v k"

fun truthy_opt :: "json option \<Rightarrow> bool" where
  "truthy_opt None = False"
| "truthy_opt (Some v) = truthy v"

text \<open>\<^verbatim>\<open>x || ""\<close>.\<close>

fun or_empty :: "json option \<Rightarrow> json" where
  "or_empty None = JStr []"
| "or_empty (Some v) = (if truthy v then v else JStr [])"

text \<open>
  \<^verbatim>\<open>ToString\<close>, which string concatenation and \<^verbatim>\<open>new Error\<close> apply; \<open>None\<close> is the
  \<^verbatim>\<open>TypeError\<close> of an object whose own \<^verbatim>\<open>toString\<close> property hides the inherited
  method. An array joins its elements with commas, \<^verbatim>\<open>null\<close> elements as the empty
  string.
\<close>

fun to_str :: "json \<Rightarrow> string option"
  and join_elems :: "json list \<Rightarrow> string option"
  and elem_str :: "json \<Rightarrow> string option" where
  "to_str JNull = Some ''null''"
| "to_str (JBool b) = Some (if b then ''true'' else ''false'')"
| "to_str (JNum t) = Some t"
| "to_str (JStr s) = Some s"
| "to_str (JArr xs) = join_elems xs"
| "to_str (JObj kvs) =
     (if map_of kvs ''toString'' = None then Some ''[object Object]'' else None)"
| "join_elems [] = Some []"
| "join_elems [x] = elem_str x"
| "join_elems (x # y # ys) =
     (case elem_str x of None \<Rightarrow> None
      | Some a \<Rightarrow> (case join_elems (y # ys) of None \<Rightarrow> None
                   | Some b \<Rightarrow> Some (a @ '','' @ b)))"
| "elem_str JNull = Some []"
| "elem_str (JBool b) = to_str (JBool b)"
| "elem_str (JNum t) = to_str (JNum t)"
| "elem_str (JStr s) = to_str (JStr s)"
| "elem_str (JArr xs) = join_elems xs"
| "elem_str (JObj kvs) = to_str (JObj kvs)"

subsection \<open>The page and the module-level variables\<close>

text \<open>A staged image; its numeric id, which only the reordering glue reads, is left out.\<close>

record image =
  img_name :: string
  base64 :: string

text \<open>An entry of \<^verbatim>\<open>sessionHistory\<close>: \<^verbatim>\<open>{id, time, text}\<close>.\<close>

record history_item =
  h_id :: int
  h_time :: string
  h_text :: string

text \<open>The body of the request to \<^verbatim>\<open>/api/stream_recognize\<close>.\<close>

record request =
  req_images :: "string list"
  req_prompt :: string
  req_model :: string
  req_enable_reasoning :: bool

text \<open>The two glyphs of a toggle icon: the triangle that points up and the one that points down.\<close>

datatype glyph = TriangleUp | TriangleDown

text \<open>
  The module-level variables, the elements of the page that the script reads or writes,
  and what the script sends to the outside (alerts, requests, console lines, pending
  timeouts). \<open>abortController\<close> is \<open>None\<close> for \<^verbatim>\<open>null\<close> and otherwise holds whether its
  signal is aborted. Of the elements:
  \<^item> \<open>status_text\<close> and \<open>status_class\<close> are the \<^verbatim>\<open>innerText\<close> and the \<^verbatim>\<open>className\<close> of
    \<^verbatim>\<open>status-indicator\<close>; \<open>btn_text\<close> is the \<^verbatim>\<open>innerText\<close> of \<^verbatim>\<open>btn-recognize\<close> and
    \<open>btn_stop\<close> says whether it has the class \<^verbatim>\<open>btn-stop\<close>;
  \<^item> \<open>result_display\<close> and \<open>reasoning_display\<close> are the \<^verbatim>\<open>innerText\<close> of the elements
    of those names; \<open>reasoning_display_expanded\<close> says whether \<^verbatim>\<open>reasoning-display\<close> has
    the class \<^verbatim>\<open>expanded\<close>, and \<open>reasoning_content_style\<close> is the \<^verbatim>\<open>style.display\<close> of
    \<^verbatim>\<open>reasoning-content\<close> (both used by \<^verbatim>\<open>src/static/js/main.js\<close> only);
  \<^item> \<open>reasoning_box_style\<close> is the \<^verbatim>\<open>style.display\<close> of \<^verbatim>\<open>reasoning-box\<close>; for each of
    \<^verbatim>\<open>reasoning-box\<close> and \<^verbatim>\<open>output-box\<close>, \<open>_expanded\<close> and \<open>_collapsed\<close> say whether
    its class list contains the class of that name; \<open>reasoning_status\<close> and
    \<open>output_status\<close> are the \<^verbatim>\<open>className\<close> of \<^verbatim>\<open>reasoning-status\<close> and
    \<^verbatim>\<open>output-status\<close> (all used by \<^verbatim>\<open>src/unnamed/part_000\<close> only);
  \<^item> \<open>user_prompt\<close> and \<open>model_select\<close> are the values of those controls, and
    \<open>reasoning_toggle\<close> is whether \<^verbatim>\<open>reasoning-toggle\<close> is checked.
\<close>

record app =
  currentImages :: "image list"
  isRecognizing :: bool
  abortController :: "bool option"
  sessionHistory :: "history_item list"
  reasoningContent :: string
  status_text :: string
  status_class :: string
  btn_text :: string
  btn_stop :: bool
  result_display :: string
  reasoning_display :: string
  reasoning_display_expanded :: bool
  reasoning_content_style :: string
  reasoning_toggle_icon :: glyph
  output_toggle_icon :: glyph
  reasoning_box_style :: string
  reasoning_box_expanded :: bool
  reasoning_box_collapsed :: bool
  output_box_expanded :: bool
  output_box_collapsed :: bool
  reasoning_status :: string
  output_status :: string
  user_prompt :: string
  model_select :: string
  reasoning_toggle :: bool
  alerts :: "string list"
  requests :: "request list"
  console :: "string list"
  timeouts :: nat

text \<open>The locals of one run of \<^verbatim>\<open>toggleRecognize\<close>, with the page they act on.\<close>

record run =
  fullText :: string
  reasoningText :: string
  page :: app

definition updateStatus :: "string \<Rightarrow> string \<Rightarrow> app \<Rightarrow> app" where
  "updateStatus msg type s = s\<lparr>status_text := msg, status_class := type\<rparr>"

subsection \<open>Reasoning display, \<^verbatim>\<open>src/static/js/main.js\<close>\<close>

definition hideReasoningContent_main :: "app \<Rightarrow> app" where
  "hideReasoningContent_main s =
     s\<lparr>reasoning_content_style := ''none'',
       reasoning_display_expanded := False,
       reasoning_toggle_icon := TriangleDown\<rparr>"

definition showReasoningContent_main :: "string \<Rightarrow> app \<Rightarrow> app" where
  "showReasoningContent_main content s =
     (let s1 = s\<lparr>reasoningContent := content\<rparr>
      in if content \<noteq> [] \<and> trim content \<noteq> []
         then s1\<lparr>reasoning_display := content, reasoning_content_style := ''block''\<rparr>
         else hideReasoningContent_main s1)"

definition toggleReasoningDisplay_main :: "app \<Rightarrow> app" where
  "toggleReasoningDisplay_main s =
     (if reasoning_display_expanded s
      then s\<lparr>reasoning_display_expanded := False, reasoning_toggle_icon := TriangleDown\<rparr>
      else s\<lparr>reasoning_display_expanded := True, reasoning_toggle_icon := TriangleUp\<rparr>)"

subsection \<open>Reasoning box and output box, \<^verbatim>\<open>src/unnamed/part_000\<close>\<close>

definition hideReasoningContent_p000 :: "app \<Rightarrow> app" where
  "hideReasoningContent_p000 s =
     (if \<not> reasoning_box_collapsed s
      then s\<lparr>reasoning_box_expanded := False, reasoning_box_collapsed := True,
             reasoning_toggle_icon := TriangleDown,
             output_box_collapsed := False, output_box_expanded := True,
             output_toggle_icon := TriangleUp\<rparr>
      else s)"

definition showReasoningContent_p000 :: "string \<Rightarrow> app \<Rightarrow> app" where
  "showReasoningContent_p000 content s =
     (let s1 = s\<lparr>reasoningContent := content\<rparr>
      in if content \<noteq> [] \<and> trim content \<noteq> []
         then s1\<lparr>reasoning_display := content,
                 reasoning_box_style := ''flex'',
                 reasoning_box_collapsed := False, reasoning_box_expanded := True,
                 reasoning_toggle_icon := TriangleUp,
                 output_box_expanded := False, output_box_collapsed := True,
                 output_toggle_icon := TriangleDown,
                 output_status := ''box-status'',
                 reasoning_status := ''box-status spinning''\<rparr>
         else hideReasoningContent_p000 s1)"

definition toggleBox :: "string \<Rightarrow> app \<Rightarrow> app" where
  "toggleBox boxType s =
     (if boxType = ''reasoning''
      then (if reasoning_box_collapsed s
            then s\<lparr>reasoning_box_collapsed := False, reasoning_box_expanded := True,
                   reasoning_toggle_icon := TriangleUp,
                   output_box_expanded := False, output_box_collapsed := True,
                   output_toggle_icon := TriangleDown\<rparr>
            else s\<lparr>reasoning_box_expanded := False, reasoning_box_collapsed := True,
                   reasoning_toggle_icon := TriangleDown,
                   output_box_collapsed := False, output_box_expanded := True,
                   output_toggle_icon := TriangleUp\<rparr>)
      else (if output_box_collapsed s
            then s\<lparr>output_box_collapsed := False, output_box_expanded := True,
                   output_toggle_icon := TriangleUp,
                   reasoning_box_expanded := False, reasoning_box_collapsed := True,
                   reasoning_toggle_icon := TriangleDown\<rparr>
            else s\<lparr>output_box_expanded := False, output_box_collapsed := True,
                   output_toggle_icon := TriangleDown,
                   reasoning_box_collapsed := False, reasoning_box_expanded := True,
                   reasoning_toggle_icon := TriangleUp\<rparr>))"

definition toggleReasoningDisplay_p000 :: "app \<Rightarrow> app" where
  "toggleReasoningDisplay_p000 s = toggleBox ''reasoning'' s"

subsection \<open>What the platform hands to a run\<close>

text \<open>A thrown or rejected value: \<^verbatim>\<open>err.name\<close> and \<^verbatim>\<open>err.message\<close>.\<close>

datatype exn = Exn (err_name: string) (err_message: string)

text \<open>
  What \<^verbatim>\<open>fetch\<close> resolves to: \<open>resp_json\<close> is what \<^verbatim>\<open>response.json()\<close> settles to,
  \<open>resp_chunks\<close> are the values \<^verbatim>\<open>reader.read()\<close> delivers, and \<open>resp_end\<close> says how
  the reads end: \<open>None\<close> for \<^verbatim>\<open>{done: true}\<close>, \<open>Some e\<close> for a read that rejects with
  \<open>e\<close>. \<open>resp_body_null\<close> holds when \<^verbatim>\<open>response.body\<close> is \<^verbatim>\<open>null\<close>.
\<close>

record 'b response =
  resp_ok :: bool
  resp_status :: nat
  resp_json :: "exn + json"
  resp_body_null :: bool
  resp_chunks :: "'b list list"
  resp_end :: "exn option"

text \<open>
  The platform functions a run calls, and what they answer during that run:
  \<^verbatim>\<open>JSON.parse\<close> (\<open>None\<close> when it throws), the streaming \<^verbatim>\<open>TextDecoder\<close> as a step
  function on its state, what \<^verbatim>\<open>fetch\<close> settles to, the clock, and the messages the
  engine gives its own \<^verbatim>\<open>TypeError\<close>s.
\<close>

record ('b, 'd) env =
  JSON_parse :: "string \<Rightarrow> json option"
  decode :: "'d \<Rightarrow> 'b list \<Rightarrow> string \<times> 'd"
  decoder0 :: 'd
  fetch_result :: "exn + 'b response"
  Date_now :: int
  toLocaleTimeString :: string
  null_property_message :: string
  not_primitive_message :: string

subsection \<open>One line of the stream\<close>

text \<open>\<^verbatim>\<open>catch (e) { console.error("Parse error", e); }\<close>\<close>

definition parse_error :: "run \<Rightarrow> run" where
  "parse_error r = r\<lparr>page := (page r)\<lparr>console := console (page r) @ [''Parse error'']\<rparr>\<rparr>"

text \<open>
  \<^verbatim>\<open>fullText += content; display.innerText = fullText;\<close>
  \<open>None\<close> when the concatenation throws.
\<close>

definition add_content :: "json \<Rightarrow> run \<Rightarrow> run option" where
  "add_content v r =
     (case to_str v of
        None \<Rightarrow> None
      | Some t \<Rightarrow> Some (r\<lparr>fullText := fullText r @ t,
                          page := (page r)\<lparr>result_display := fullText r @ t\<rparr>\<rparr>))"

text \<open>\<^verbatim>\<open>reasoningText += v; showReasoningContent(reasoningText);\<close>\<close>

definition add_reasoning :: "(string \<Rightarrow> app \<Rightarrow> app) \<Rightarrow> json \<Rightarrow> run \<Rightarrow> run option" where
  "add_reasoning showReasoningContent v r =
     (case to_str v of
        None \<Rightarrow> None
      | Some t \<Rightarrow> Some (r\<lparr>reasoningText := reasoningText r @ t,
                          page := showReasoningContent (reasoningText r @ t) (page r)\<rparr>))"

text \<open>
  In \<^verbatim>\<open>src/static/js/main.js\<close>, the block under \<^verbatim>\<open>if (content)\<close>: the content is
  appended and shown, and only then is the reasoning of the same delta looked at. An
  exception leaves what was done before it and goes to the \<^verbatim>\<open>catch\<close>.
\<close>

definition on_content_main :: "json \<Rightarrow> json option \<Rightarrow> run \<Rightarrow> run" where
  "on_content_main content delta r =
     (case add_content content r of
        None \<Rightarrow> parse_error r
      | Some r1 \<Rightarrow>
          (case opt_chain delta ''reasoning'' of
             None \<Rightarrow> r1
           | Some reasoning \<Rightarrow>
               if truthy reasoning then
                 (case add_reasoning showReasoningContent_main reasoning r1 of
                    None \<Rightarrow> parse_error r1
                  | Some r2 \<Rightarrow> r2)
               else r1))"

text \<open>
  The body of the \<^verbatim>\<open>try\<close> after \<^verbatim>\<open>JSON.parse\<close> has returned \<open>j\<close>, with its
  \<^verbatim>\<open>catch\<close>, in \<^verbatim>\<open>src/static/js/main.js\<close>. Reading a property of \<^verbatim>\<open>null\<close> or of
  \<^verbatim>\<open>undefined\<close> throws: \<^verbatim>\<open>json.choices[0]\<close> does so when \<^verbatim>\<open>json\<close> is \<^verbatim>\<open>null\<close> and
  when it has no \<^verbatim>\<open>choices\<close>.
\<close>

definition on_payload_main :: "json \<Rightarrow> run \<Rightarrow> run" where
  "on_payload_main j r =
     (if j = JNull then parse_error r
      else
        (case get_prop j ''choices'' of
           None \<Rightarrow> parse_error r
         | Some choices \<Rightarrow>
             if choices = JNull then parse_error r
             else
               (let delta = opt_chain (index0 choices) ''delta'';
                    content = or_empty (opt_chain delta ''content'')
                in if truthy content then on_content_main content delta r else r)))"

text \<open>
  In \<^verbatim>\<open>src/unnamed/part_000\<close>, the branch for a payload whose \<^verbatim>\<open>type\<close> is
  \<^verbatim>\<open>'response.reasoning.delta'\<close>.
\<close>

definition on_tagged_p000 :: "json \<Rightarrow> run \<Rightarrow> run" where
  "on_tagged_p000 j r =
     (let reasoningDelta = or_empty (get_prop j ''delta'')
      in if truthy reasoningDelta then
           (case add_reasoning showReasoningContent_p000 reasoningDelta r of
              None \<Rightarrow> parse_error r
            | Some r1 \<Rightarrow> r1)
         else r)"

text \<open>
  The branch for a payload of the choices shape, \<open>delta\<close> being
  \<^verbatim>\<open>json.choices[0].delta\<close>: first the reasoning, then the content.
\<close>

definition on_delta_p000 :: "json \<Rightarrow> run \<Rightarrow> run" where
  "on_delta_p000 delta r =
     (let content = or_empty (get_prop delta ''content'');
          reasoning = or_empty (get_prop delta ''reasoning'')
      in case (if truthy reasoning
               then add_reasoning showReasoningContent_p000 reasoning r
               else Some r) of
           None \<Rightarrow> parse_error r
         | Some r1 \<Rightarrow>
             (case (if truthy content then add_content content r1 else Some r1) of
                None \<Rightarrow> parse_error r1
              | Some r2 \<Rightarrow> r2))"

text \<open>
  \<^verbatim>\<open>json.choices && json.choices[0]?.delta\<close>: the delta of a payload of the choices
  shape, \<open>None\<close> when the condition is falsy.
\<close>

definition choices_delta :: "json \<Rightarrow> json option" where
  "choices_delta j =
     (case get_prop j ''choices'' of
        None \<Rightarrow> None
      | Some choices \<Rightarrow>
          if \<not> truthy choices then None
          else
            (case opt_chain (index0 choices) ''delta'' of
               None \<Rightarrow> None
             | Some delta \<Rightarrow> if truthy delta then Some delta else None))"

text \<open>
  The body of the \<^verbatim>\<open>try\<close> after \<^verbatim>\<open>JSON.parse\<close> in \<^verbatim>\<open>src/unnamed/part_000\<close>:
  \<^verbatim>\<open>json.type\<close> throws when \<^verbatim>\<open>json\<close> is \<^verbatim>\<open>null\<close>; the type tag is tested first, the
  choices shape otherwise.
\<close>

definition on_payload_p000 :: "json \<Rightarrow> run \<Rightarrow> run" where
  "on_payload_p000 j r =
     (if j = JNull then parse_error r
      else if get_prop j ''type'' = Some (JStr ''response.reasoning.delta'')
      then on_tagged_p000 j r
      else
        (case choices_delta j of
           None \<Rightarrow> r
         | Some delta \<Rightarrow> on_delta_p000 delta r))"

text \<open>
  The body of \<^verbatim>\<open>for (const line of lines)\<close>, the same in both files but for the body of
  the \<^verbatim>\<open>try\<close>, which is the parameter \<open>on_payload\<close>.
\<close>

definition for_line ::
  "(json \<Rightarrow> run \<Rightarrow> run) \<Rightarrow> (string \<Rightarrow> json option) \<Rightarrow> string \<Rightarrow> run \<Rightarrow> run" where
  "for_line on_payload parse line r =
     (let trimmed = trim line
      in if trimmed = [] \<or> trimmed = ''data: [DONE]'' then r
         else if startsWith trimmed ''data: '' then
           (case parse (drop 6 trimmed) of
              None \<Rightarrow> parse_error r
            | Some j \<Rightarrow> on_payload j r)
         else r)"

subsection \<open>The reading loop\<close>

text \<open>
  \<^verbatim>\<open>while (true)\<close> over the values that \<^verbatim>\<open>reader.read()\<close> delivers: the state is the
  decoder's, the \<^verbatim>\<open>buffer\<close> and the run; \<open>body\<close> is the body of the \<^verbatim>\<open>for\<close>, run
  over the lines in order. \<^verbatim>\<open>lines.pop()\<close> takes the last piece, which \<open>split_nl\<close> always
  has.
\<close>

fun read_loop ::
  "('d \<Rightarrow> 'b list \<Rightarrow> string \<times> 'd) \<Rightarrow> (string \<Rightarrow> run \<Rightarrow> run) \<Rightarrow> 'b list list
     \<Rightarrow> 'd \<times> string \<times> run \<Rightarrow> 'd \<times> string \<times> run" where
  "read_loop dec body [] st = st"
| "read_loop dec body (val # rest) (d, buffer, r) =
     (let (text, d') = dec d val;
          lines = split_nl (buffer @ text)
      in read_loop dec body rest (d', last lines, fold body (butlast lines) r))"

text \<open>
  The run when the loop is left: \<^verbatim>\<open>fullText\<close>, \<^verbatim>\<open>reasoningText\<close> and \<^verbatim>\<open>buffer\<close> start
  empty, and what is left in the buffer at the end is dropped.
\<close>

definition read_stream ::
  "(json \<Rightarrow> run \<Rightarrow> run) \<Rightarrow> ('b, 'd) env \<Rightarrow> 'b list list \<Rightarrow> app \<Rightarrow> run" where
  "read_stream on_payload e chunks s =
     snd (snd (read_loop (decode e) (for_line on_payload (JSON_parse e)) chunks
                 (decoder0 e, [], \<lparr>fullText = [], reasoningText = [], page = s\<rparr>)))"

subsection \<open>\<^verbatim>\<open>toggleRecognize\<close>\<close>

text \<open>
  A call of \<^verbatim>\<open>toggleRecognize\<close> is modelled from its start to its end as one function of
  the page: what each \<^verbatim>\<open>await\<close> gives is read from the \<open>env\<close>. The script runs on one
  thread and a call is suspended only at an \<^verbatim>\<open>await\<close>; a click on Stop during a run shows
  in the model as the pending \<^verbatim>\<open>await\<close> rejecting with an \<^verbatim>\<open>AbortError\<close>. Other clicks
  during a run are not interleaved here; the events on the two boxes are modelled on
  their own further down.
\<close>

definition BEGIN_MARKER :: string where
  "BEGIN_MARKER = ''<|begin_of_box|>''"

definition END_MARKER :: string where
  "END_MARKER = ''<|end_of_box|>''"

text \<open>The request body, read from the page.\<close>

definition requestData :: "app \<Rightarrow> request" where
  "requestData s =
     \<lparr>req_images = map base64 (currentImages s),
      req_prompt = (if user_prompt s \<noteq> [] then user_prompt s else []),
      req_model = model_select s,
      req_enable_reasoning = reasoning_toggle s\<rparr>"

text \<open>
  Issuing \<^verbatim>\<open>fetch('/api/stream_recognize', ...)\<close>, after the status has been set to
  processing.
\<close>

definition send_request :: "app \<Rightarrow> app" where
  "send_request s =
     (let s1 = updateStatus ''Processing...'' ''processing'' s
      in s1\<lparr>requests := requests s1 @ [requestData s]\<rparr>)"

text \<open>
  What is thrown for a response that is not ok:
  \<^verbatim>\<open>const errorData = await response.json().catch(() => ({}));\<close>
  \<^verbatim>\<open>throw new Error(errorData.error || `HTTP ${response.status}`);\<close>
\<close>

definition http_error :: "('b, 'd) env \<Rightarrow> 'b response \<Rightarrow> exn" where
  "http_error e resp =
     (let errorData = (case resp_json resp of Inl rejected \<Rightarrow> JObj [] | Inr v \<Rightarrow> v)
      in if errorData = JNull then Exn ''TypeError'' (null_property_message e)
         else
           (case get_prop errorData ''error'' of
              None \<Rightarrow> Exn ''Error'' (''HTTP '' @ show_nat (resp_status resp))
            | Some m \<Rightarrow>
                if truthy m then
                  (case to_str m of
                     None \<Rightarrow> Exn ''TypeError'' (not_primitive_message e)
                   | Some t \<Rightarrow> Exn ''Error'' t)
                else Exn ''Error'' (''HTTP '' @ show_nat (resp_status resp))))"

text \<open>Removing the markers after the loop, when both are present.\<close>

definition process_final :: "run \<Rightarrow> run" where
  "process_final r =
     (if startsWith (fullText r) BEGIN_MARKER \<and> endsWith (fullText r) END_MARKER then
        (let t = substring (fullText r) (length BEGIN_MARKER)
                   (length (fullText r) - length END_MARKER)
         in r\<lparr>fullText := t, page := (page r)\<lparr>result_display := t\<rparr>\<rparr>)
      else r)"

text \<open>\<^verbatim>\<open>sessionHistory.unshift({id: Date.now(), time: ..., text: fullText})\<close>\<close>

definition add_to_history :: "('b, 'd) env \<Rightarrow> string \<Rightarrow> app \<Rightarrow> app" where
  "add_to_history e t s =
     s\<lparr>sessionHistory :=
         \<lparr>h_id = Date_now e, h_time = toLocaleTimeString e, h_text = t\<rparr> # sessionHistory s\<rparr>"

text \<open>\<^verbatim>\<open>finally\<close>\<close>

definition finally_block :: "app \<Rightarrow> app" where
  "finally_block s = s\<lparr>isRecognizing := False, btn_text := ''Start'', btn_stop := False\<rparr>"

text \<open>The first branch of \<^verbatim>\<open>toggleRecognize\<close>: \<^verbatim>\<open>abortController?.abort()\<close>.\<close>

definition abort_run :: "app \<Rightarrow> app" where
  "abort_run s = s\<lparr>abortController := map_option (\<lambda>aborted. True) (abortController s)\<rparr>"

definition alert :: "string \<Rightarrow> app \<Rightarrow> app" where
  "alert msg s = s\<lparr>alerts := alerts s @ [msg]\<rparr>"

subsubsection \<open>\<^verbatim>\<open>src/static/js/main.js\<close>\<close>

text \<open>From \<^verbatim>\<open>isRecognizing = true\<close> to the \<^verbatim>\<open>try\<close>.\<close>

definition begin_main :: "app \<Rightarrow> app" where
  "begin_main s =
     (let s1 = s\<lparr>isRecognizing := True, btn_text := ''Stop'', btn_stop := True\<rparr>;
          s2 = updateStatus ''Connecting...'' ''connecting'' s1;
          s3 = s2\<lparr>result_display := [], reasoningContent := [], reasoning_display := []\<rparr>;
          s4 = hideReasoningContent_main s3
      in s4\<lparr>abortController := Some False\<rparr>)"

text \<open>After the loop, when the reads ended with \<^verbatim>\<open>done\<close>.\<close>

definition complete_main :: "('b, 'd) env \<Rightarrow> run \<Rightarrow> app" where
  "complete_main e r =
     (if fullText r \<noteq> [] then
        (let s1 = add_to_history e (fullText r) (page r);
             s2 = updateStatus ''Done'' ''success'' s1
         in if reasoningText r \<noteq> [] then s2\<lparr>timeouts := timeouts s2 + 1\<rparr> else s2)
      else page r)"

text \<open>The callback of that timeout.\<close>

definition autoCollapse_main :: "app \<Rightarrow> app" where
  "autoCollapse_main s =
     (if reasoning_display_expanded s
      then s\<lparr>reasoning_display_expanded := False, reasoning_toggle_icon := TriangleDown\<rparr>
      else s)"

definition catch_main :: "exn \<Rightarrow> app \<Rightarrow> app" where
  "catch_main err s =
     (if err_name err = ''AbortError'' then updateStatus ''Stopped'' ''error'' s
      else (let s1 = updateStatus (''Error: '' @ err_message err) ''error'' s
            in s1\<lparr>console := console s1 @ [err_message err]\<rparr>))"

text \<open>The page at the moment \<^verbatim>\<open>fetch\<close> is called.\<close>

definition before_fetch_main :: "app \<Rightarrow> app" where
  "before_fetch_main s = send_request (begin_main s)"

definition toggleRecognize_main :: "('b, 'd) env \<Rightarrow> app \<Rightarrow> app" where
  "toggleRecognize_main e s =
     (if isRecognizing s then abort_run s
      else if currentImages s = [] then alert ''Please add images.'' s
      else
        (let s1 = before_fetch_main s
         in finally_block
              (case fetch_result e of
                 Inl err \<Rightarrow> catch_main err s1
               | Inr resp \<Rightarrow>
                   if \<not> resp_ok resp then catch_main (http_error e resp) s1
                   else if resp_body_null resp
                   then catch_main (Exn ''TypeError'' (null_property_message e)) s1
                   else
                     (let r = read_stream on_payload_main e (resp_chunks resp) s1
                      in case resp_end resp of
                           Some err \<Rightarrow> catch_main err (page r)
                         | None \<Rightarrow> complete_main e (process_final r)))))"

subsubsection \<open>\<^verbatim>\<open>src/unnamed/part_000\<close>\<close>

definition begin_p000 :: "app \<Rightarrow> app" where
  "begin_p000 s =
     (let s1 = s\<lparr>isRecognizing := True, btn_text := ''Stop'', btn_stop := True\<rparr>;
          s2 = updateStatus ''Connecting...'' ''connecting'' s1;
          s3 = s2\<lparr>result_display := [], reasoningContent := [], reasoning_display := []\<rparr>;
          s4 = s3\<lparr>reasoning_status := ''box-status'', output_status := ''box-status''\<rparr>
      in s4\<lparr>abortController := Some False\<rparr>)"

text \<open>Setting the two boxes from the reasoning switch, at the head of the \<^verbatim>\<open>try\<close>.\<close>

definition set_boxes :: "bool \<Rightarrow> app \<Rightarrow> app" where
  "set_boxes reasoningEnabled s =
     (if reasoningEnabled
      then s\<lparr>reasoning_box_style := ''flex'',
             reasoning_box_collapsed := False, reasoning_box_expanded := True,
             reasoning_toggle_icon := TriangleUp,
             output_box_expanded := False, output_box_collapsed := True,
             output_toggle_icon := TriangleDown,
             output_status := ''box-status'',
             reasoning_status := ''box-status spinning''\<rparr>
      else s\<lparr>reasoning_box_style := ''none'',
             reasoning_box_expanded := False, reasoning_box_collapsed := True,
             reasoning_toggle_icon := TriangleDown,
             output_box_collapsed := False, output_box_expanded := True,
             output_toggle_icon := TriangleUp,
             reasoning_status := ''box-status'',
             output_status := ''box-status spinning''\<rparr>)"

definition complete_p000 :: "('b, 'd) env \<Rightarrow> bool \<Rightarrow> run \<Rightarrow> app" where
  "complete_p000 e reasoningEnabled r =
     (if fullText r \<noteq> [] then
        (let s1 = add_to_history e (fullText r) (page r);
             s2 = updateStatus ''Done'' ''success'' s1;
             s3 = (if reasoningEnabled \<and> reasoningText r \<noteq> []
                   then s2\<lparr>reasoning_status := ''box-status completed'',
                           output_status := ''box-status completed''\<rparr>
                   else s2\<lparr>output_status := ''box-status completed''\<rparr>)
         in if reasoningText r \<noteq> [] then s3\<lparr>timeouts := timeouts s3 + 1\<rparr> else s3)
      else page r)"

text \<open>The callback of that timeout: the switch from the reasoning box to the output box.\<close>

definition autoSwitch_p000 :: "app \<Rightarrow> app" where
  "autoSwitch_p000 s =
     (if reasoning_box_style s \<noteq> ''none''
      then s\<lparr>reasoning_box_expanded := False, reasoning_box_collapsed := True,
             reasoning_toggle_icon := TriangleDown,
             output_box_collapsed := False, output_box_expanded := True,
             output_toggle_icon := TriangleUp\<rparr>
      else s)"

definition catch_p000 :: "exn \<Rightarrow> app \<Rightarrow> app" where
  "catch_p000 err s =
     (if err_name err = ''AbortError''
      then (updateStatus ''Stopped'' ''error'' s)
             \<lparr>reasoning_status := ''box-status'', output_status := ''box-status''\<rparr>
      else (let s1 = updateStatus (''Error: '' @ err_message err) ''error'' s
            in s1\<lparr>console := console s1 @ [err_message err],
                   reasoning_status := ''box-status error'',
                   output_status := ''box-status error''\<rparr>))"

text \<open>
  The page at the moment \<^verbatim>\<open>fetch\<close> is called; \<^verbatim>\<open>reasoningEnabled\<close> is the state of
  the reasoning switch, which the steps before do not change.
\<close>

definition before_fetch_p000 :: "app \<Rightarrow> app" where
  "before_fetch_p000 s = send_request (set_boxes (reasoning_toggle s) (begin_p000 s))"

definition toggleRecognize_p000 :: "('b, 'd) env \<Rightarrow> app \<Rightarrow> app" where
  "toggleRecognize_p000 e s =
     (if isRecognizing s then abort_run s
      else if currentImages s = [] then alert ''Please add images.'' s
      else
        (let reasoningEnabled = reasoning_toggle s;
             s1 = before_fetch_p000 s
         in finally_block
              (case fetch_result e of
                 Inl err \<Rightarrow> catch_p000 err s1
               | Inr resp \<Rightarrow>
                   if \<not> resp_ok resp then catch_p000 (http_error e resp) s1
                   else if resp_body_null resp
                   then catch_p000 (Exn ''TypeError'' (null_property_message e)) s1
                   else
                     (let r = read_stream on_payload_p000 e (resp_chunks resp) s1
                      in case resp_end resp of
                           Some err \<Rightarrow> catch_p000 err (page r)
                         | None \<Rightarrow> complete_p000 e reasoningEnabled (process_final r)))))"

subsection \<open>What touches the two boxes, \<^verbatim>\<open>src/unnamed/part_000\<close>\<close>

text \<open>
  Once a run has set the boxes, four things change them: a line of the stream (through
  \<^verbatim>\<open>showReasoningContent\<close>), a click on the header of a box (\<^verbatim>\<open>toggleBox\<close>), hiding
  the reasoning content, and the timeout set at the end of the stream.
\<close>

datatype event = Line string | Toggle string | Hide | Timeout

fun step_p000 :: "(string \<Rightarrow> json option) \<Rightarrow> event \<Rightarrow> run \<Rightarrow> run" where
  "step_p000 parse (Line l) r = for_line on_payload_p000 parse l r"
| "step_p000 parse (Toggle boxType) r = r\<lparr>page := toggleBox boxType (page r)\<rparr>"
| "step_p000 parse Hide r = r\<lparr>page := hideReasoningContent_p000 (page r)\<rparr>"
| "step_p000 parse Timeout r = r\<lparr>page := autoSwitch_p000 (page r)\<rparr>"

text \<open>Exactly one of the two boxes carries the class \<^verbatim>\<open>expanded\<close>.\<close>

definition exclusive :: "app \<Rightarrow> bool" where
  "exclusive s \<longleftrightarrow> reasoning_box_expanded s \<noteq> output_box_expanded s"

text \<open>Each box carries exactly one of the classes \<^verbatim>\<open>expanded\<close> and \<^verbatim>\<open>collapsed\<close>.\<close>

definition one_class :: "app \<Rightarrow> bool" where
  "one_class s \<longleftrightarrow>
     reasoning_box_collapsed s \<noteq> reasoning_box_expanded s \<and>
     output_box_collapsed s \<noteq> output_box_expanded s"

text \<open>The two boxes are at opposite classes, each with exactly one.\<close>

definition panels_ok :: "app \<Rightarrow> bool" where
  "panels_ok s \<longleftrightarrow> exclusive s \<and> one_class s"

subsection \<open>What the lines of a stream leave alone\<close>

text \<open>
  The page \<open>s'\<close> differs from \<open>s\<close> at most in the result display, the reasoning display
  and its boxes, and the console.
\<close>

definition untouched :: "app \<Rightarrow> app \<Rightarrow> bool" where
  "untouched s s' \<longleftrightarrow>
     currentImages s' = currentImages s \<and>
     isRecognizing s' = isRecognizing s \<and>
     abortController s' = abortController s \<and>
     sessionHistory s' = sessionHistory s \<and>
     status_text s' = status_text s \<and>
     status_class s' = status_class s \<and>
     btn_text s' = btn_text s \<and>
     btn_stop s' = btn_stop s \<and>
     user_prompt s' = user_prompt s \<and>
     model_select s' = model_select s \<and>
     reasoning_toggle s' = reasoning_toggle s \<and>
     alerts s' = alerts s \<and>
     requests s' = requests s \<and>
     timeouts s' = timeouts s"

subsection \<open>The page without its console\<close>

definition no_console :: "run \<Rightarrow> run" where
  "no_console r = r\<lparr>page := (page r)\<lparr>console := []\<rparr>\<rparr>"

subsection \<open>The contract of the streaming decoder\<close>

text \<open>
  \<^verbatim>\<open>decoder.decode(value, {stream: true})\<close> keeps the bytes of an unfinished character
  in the decoder, so that decoding a sequence of bytes in two pieces gives the text of
  decoding it in one; decoding no bytes gives no text.
\<close>

definition streaming :: "('d \<Rightarrow> 'b list \<Rightarrow> string \<times> 'd) \<Rightarrow> bool" where
  "streaming dec \<longleftrightarrow>
     (\<forall>d. dec d [] = ([], d)) \<and>
     (\<forall>d a b. dec d (a @ b) =
        (let (t1, d1) = dec d a; (t2, d2) = dec d1 b in (t1 @ t2, d2)))"

subsection \<open>Sample inputs\<close>

text \<open>
  The payloads used in the examples below, each with the value \<^verbatim>\<open>JSON.parse\<close> returns
  for it; the last one is cut short and makes \<^verbatim>\<open>JSON.parse\<close> throw.
\<close>

definition payload_hi :: string where
  \<open>payload_hi = ''{"choices":[{"delta":{"content":"Hi"}}]}''\<close>

definition payload_think :: string where
  \<open>payload_think = ''{"choices":[{"delta":{"content":"","reasoning":"think"}}]}''\<close>

definition payload_tagged :: string where
  \<open>payload_tagged = ''{"type":"response.reasoning.delta","delta":"think"}''\<close>

definition payload_cut :: string where
  \<open>payload_cut = ''{"choices":[{"delta":{"content":"H''\<close>

definition sample_parse :: "string \<Rightarrow> json option" where
  "sample_parse t =
     (if t = payload_hi then
        Some (JObj [(''choices'', JArr [JObj [(''delta'', JObj [(''content'', JStr ''Hi'')])]])])
      else if t = payload_think then
        Some (JObj [(''choices'',
                JArr [JObj [(''delta'',
                  JObj [(''content'', JStr []), (''reasoning'', JStr ''think'')])]])])
      else if t = payload_tagged then
        Some (JObj [(''type'', JStr ''response.reasoning.delta''), (''delta'', JStr ''think'')])
      else None)"

text \<open>A decoder for streams of one-byte characters: every byte is its own character.\<close>

definition ascii_decode :: "unit \<Rightarrow> string \<Rightarrow> string \<times> unit" where
  "ascii_decode d bytes = (bytes, d)"

text \<open>A page with one staged image, no run in progress and one earlier result.\<close>

definition page0 :: app where
  "page0 =
     \<lparr>currentImages = [\<lparr>img_name = ''a.png'', base64 = ''data:image/png;base64,AA==''\<rparr>],
      isRecognizing = False,
      abortController = None,
      sessionHistory = [\<lparr>h_id = 1, h_time = ''10:00:00'', h_text = ''old''\<rparr>],
      reasoningContent = [],
      status_text = ''Ready'',
      status_class = [],
      btn_text = ''Start'',
      btn_stop = False,
      result_display = [],
      reasoning_display = [],
      reasoning_display_expanded = False,
      reasoning_content_style = ''none'',
      reasoning_toggle_icon = TriangleDown,
      output_toggle_icon = TriangleUp,
      reasoning_box_style = ''none'',
      reasoning_box_expanded = False,
      reasoning_box_collapsed = True,
      output_box_expanded = True,
      output_box_collapsed = False,
      reasoning_status = ''box-status'',
      output_status = ''box-status'',
      user_prompt = [],
      model_select = ''m1'',
      reasoning_toggle = True,
      alerts = [],
      requests = [],
      console = [],
      timeouts = 0\<rparr>"

definition run0 :: run where
  "run0 = \<lparr>fullText = [], reasoningText = [], page = page0\<rparr>"

text \<open>A response that is ok and delivers the given chunks, then ends.\<close>

definition ok_response :: "string list \<Rightarrow> char response" where
  "ok_response chunks =
     \<lparr>resp_ok = True, resp_status = 200, resp_json = Inr JNull, resp_body_null = False,
      resp_chunks = chunks, resp_end = None\<rparr>"

definition sample_env :: "(exn + char response) \<Rightarrow> (char, unit) env" where
  "sample_env fetched =
     \<lparr>JSON_parse = sample_parse,
      decode = ascii_decode,
      decoder0 = (),
      fetch_result = fetched,
      Date_now = 2,
      toLocaleTimeString = ''10:00:05'',
      null_property_message = ''Cannot read properties of null'',
      not_primitive_message = ''Cannot convert object to primitive value''\<rparr>"

text \<open>Runs whose text carries both markers, and only the first.\<close>

definition boxed_run :: run where
  "boxed_run = run0\<lparr>fullText := ''<|begin_of_box|>HELLO<|end_of_box|>''\<rparr>"

definition one_marker_run :: run where
  "one_marker_run = run0\<lparr>fullText := ''<|begin_of_box|>HELLO''\<rparr>"

text \<open>Streams: one content line; a tagged reasoning line, a blank line and the sentinel.\<close>

definition stream_hi :: "string list" where
  "stream_hi = [''data: '' @ payload_hi @ [NL]]"

definition env_hi :: "(char, unit) env" where
  "env_hi = sample_env (Inr (ok_response stream_hi))"

definition stream_quiet :: "string list" where
  "stream_quiet = [''data: '' @ payload_tagged @ [NL], [NL] @ ''data: [DONE]'' @ [NL]]"

definition env_quiet :: "(char, unit) env" where
  "env_quiet = sample_env (Inr (ok_response stream_quiet))"

text \<open>The sample page with no image staged.\<close>

definition page_no_images :: app where
  "page_no_images = page0\<lparr>currentImages := []\<rparr>"

text \<open>A stream with a content line after the sentinel.\<close>

definition stream_after_done :: "string list" where
  "stream_after_done = [''data: [DONE]'' @ [NL] @ ''data: '' @ payload_hi @ [NL]]"

definition env_after_done :: "(char, unit) env" where
  "env_after_done = sample_env (Inr (ok_response stream_after_done))"

text \<open>The run on the sample page at the moment its request is sent.\<close>

definition run_started :: run where
  "run_started = \<lparr>fullText = [], reasoningText = [], page = before_fetch_p000 page0\<rparr>"

text \<open>The error that \<^verbatim>\<open>abort()\<close> makes a pending \<^verbatim>\<open>await\<close> reject with.\<close>

definition abort_error :: exn where
  "abort_error = Exn ''AbortError'' ''The user aborted a request.''"

text \<open>
  A response that is not ok (status 500) whose body is still being read when the user
  presses Stop: \<^verbatim>\<open>response.json()\<close> rejects with the abort error.
\<close>

definition response_500_aborted :: "char response" where
  "response_500_aborted =
     \<lparr>resp_ok = False, resp_status = 500, resp_json = Inl abort_error,
      resp_body_null = False, resp_chunks = [], resp_end = None\<rparr>"

definition env_abort_in_error_body :: "(char, unit) env" where
  "env_abort_in_error_body = sample_env (Inr response_500_aborted)"

section \<open>Properties\<close>

subsection \<open>Splitting at newlines\<close>

lemma split_nl_not_Nil: "split_nl s \<noteq> []"
  by (induction s) (auto split: list.splits)

lemma split_nl_no_NL: "NL \<notin> set s \<Longrightarrow> split_nl s = [s]"
  by (induction s) auto

text \<open>The piece kept in the buffer holds no newline.\<close>

lemma last_split_nl_no_NL: "NL \<notin> set (last (split_nl s))"
proof (induction s)
  case Nil
  show ?case by simp
next
  case (Cons c cs)
  obtain l ls where sp: "split_nl cs = l # ls"
    using split_nl_not_Nil[of cs] by (cases "split_nl cs") auto
  with Cons show ?case by (cases "ls = []") auto
qed

text \<open>
  Splitting a text that arrives in two parts: the complete lines of the first part, then
  the split of its unfinished line followed by the second part.
\<close>

lemma split_nl_append:
  "split_nl (a @ b) = butlast (split_nl a) @ split_nl (last (split_nl a) @ b)"
proof (induction a)
  case Nil
  show ?case by simp
next
  case (Cons c cs)
  obtain l ls where sp: "split_nl cs = l # ls"
    using split_nl_not_Nil[of cs] by (cases "split_nl cs") auto
  with Cons show ?case by (cases "ls = []") auto
qed

subsection \<open>The reading loop sees only the concatenation of the chunks\<close>

lemma read_loop_whole:
  assumes "streaming dec" and "NL \<notin> set buffer"
  shows "read_loop dec body cs (d, buffer, r) =
         (let (text, d') = dec d (concat cs); lines = split_nl (buffer @ text)
          in (d', last lines, fold body (butlast lines) r))"
  using assms(2)
proof (induction cs arbitrary: d buffer r)
  case Nil
  then show ?case using assms(1) by (simp add: streaming_def split_nl_no_NL)
next
  case (Cons c cs)
  obtain t1 d1 where c: "dec d c = (t1, d1)" by (cases "dec d c")
  obtain t2 d2 where cs: "dec d1 (concat cs) = (t2, d2)" by (cases "dec d1 (concat cs)")
  have whole: "dec d (c @ concat cs) = (t1 @ t2, d2)"
    using assms(1) c cs by (simp add: streaming_def)
  have nl: "NL \<notin> set (last (split_nl (buffer @ t1)))"
    by (rule last_split_nl_no_NL)
  have sp: "split_nl (buffer @ t1 @ t2) =
      butlast (split_nl (buffer @ t1)) @ split_nl (last (split_nl (buffer @ t1)) @ t2)"
    using split_nl_append[of "buffer @ t1" t2] by simp
  show ?case
    using Cons.IH[OF nl, of d1 "fold body (butlast (split_nl (buffer @ t1))) r"]
    by (simp add: c cs whole sp split_nl_not_Nil butlast_append Let_def)
qed

lemma streaming_ascii_decode: "streaming ascii_decode"
  by (simp add: streaming_def ascii_decode_def)

lemma read_stream_whole:
  assumes "streaming (decode e)"
  shows "read_stream on_payload e cs s =
         (let (text, d') = decode e (decoder0 e) (concat cs); lines = split_nl text
          in fold (for_line on_payload (JSON_parse e)) (butlast lines)
               \<lparr>fullText = [], reasoningText = [], page = s\<rparr>)"
  using read_loop_whole [OF assms, of "[]" "for_line on_payload (JSON_parse e)" cs "decoder0 e"
      "\<lparr>fullText = [], reasoningText = [], page = s\<rparr>"]
  by (simp add: read_stream_def Let_def split: prod.splits)

text \<open>
  C1. Chunk-boundary invariance. Whenever two sequences of chunks carry the same bytes,
  reading either of them gives the same run: the same \<open>fullText\<close>, the same
  \<open>reasoningText\<close> and the same page. The loop itself, started with an empty buffer from
  any run, ends in the same state for both (decoder state and buffer included). This holds
  in both files, for every stream of bytes (well-formed or not), every \<^verbatim>\<open>JSON.parse\<close> and
  every decoder that meets the contract \<open>streaming\<close>.
\<close>

theorem chunk_boundary_invariance:
  assumes "streaming (decode e)" and "concat cs1 = concat cs2"
  shows "read_stream on_payload_main e cs1 s = read_stream on_payload_main e cs2 s
       \<and> read_stream on_payload_p000 e cs1 s = read_stream on_payload_p000 e cs2 s
       \<and> fullText (read_stream on_payload_main e cs1 s) =
         fullText (read_stream on_payload_main e cs2 s)
       \<and> reasoningText (read_stream on_payload_main e cs1 s) =
         reasoningText (read_stream on_payload_main e cs2 s)
       \<and> fullText (read_stream on_payload_p000 e cs1 s) =
         fullText (read_stream on_payload_p000 e cs2 s)
       \<and> reasoningText (read_stream on_payload_p000 e cs1 s) =
         reasoningText (read_stream on_payload_p000 e cs2 s)
       \<and> read_loop (decode e) (for_line on_payload_main (JSON_parse e)) cs1
           (decoder0 e, [], r) =
         read_loop (decode e) (for_line on_payload_main (JSON_parse e)) cs2
           (decoder0 e, [], r)
       \<and> read_loop (decode e) (for_line on_payload_p000 (JSON_parse e)) cs1
           (decoder0 e, [], r) =
         read_loop (decode e) (for_line on_payload_p000 (JSON_parse e)) cs2
           (decoder0 e, [], r)"
  using assms by (simp add: read_loop_whole read_stream_whole)

theorem chunk_boundary_invariance_witness:
  "streaming (decode env_hi)
   \<and> concat [''da'', ''ta: '' @ payload_hi @ [NL]] = concat [''data: '' @ payload_hi @ [NL]]
   \<and> read_stream on_payload_main env_hi [''da'', ''ta: '' @ payload_hi @ [NL]] page0 =
      read_stream on_payload_main env_hi [''data: '' @ payload_hi @ [NL]] page0
   \<and> read_stream on_payload_p000 env_hi [''da'', ''ta: '' @ payload_hi @ [NL]] page0 =
      read_stream on_payload_p000 env_hi [''data: '' @ payload_hi @ [NL]] page0
   \<and> fullText (read_stream on_payload_p000 env_hi [''da'', ''ta: '' @ payload_hi @ [NL]] page0)
      = fullText (read_stream on_payload_p000 env_hi [''data: '' @ payload_hi @ [NL]] page0)
   \<and> read_loop (decode env_hi) (for_line on_payload_p000 (JSON_parse env_hi))
        [''da'', ''ta: '' @ payload_hi @ [NL]] (decoder0 env_hi, [], run0) =
      read_loop (decode env_hi) (for_line on_payload_p000 (JSON_parse env_hi))
        [''data: '' @ payload_hi @ [NL]] (decoder0 env_hi, [], run0)"
proof -
  have h1: "streaming (decode env_hi)"
    by (simp add: env_hi_def sample_env_def streaming_ascii_decode)
  have h2: "concat [''da'', ''ta: '' @ payload_hi @ [NL]] =
            concat [''data: '' @ payload_hi @ [NL]]"
    by simp
  note th = chunk_boundary_invariance [OF h1 h2, where s = page0 and r = run0]
  from h1 h2 th show ?thesis by blast
qed

text \<open>The same line, split inside its prefix, gives the text \<open>Hi\<close> in both files.\<close>

lemma split_line_example:
  "fullText (snd (snd (read_loop ascii_decode (for_line on_payload_p000 sample_parse)
     [''da'', ''ta: '' @ payload_hi @ [NL]] ((), [], run0)))) = ''Hi''
   \<and> fullText (snd (snd (read_loop ascii_decode (for_line on_payload_main sample_parse)
     [''da'', ''ta: '' @ payload_hi @ [NL]] ((), [], run0)))) = ''Hi''"
  by code_simp

text \<open>
  So a whole run ends on the same page for two responses that differ only in how their
  bytes are cut into chunks.
\<close>

lemma toggleRecognize_chunking:
  assumes "streaming (decode e)" and "concat cs1 = concat cs2"
  shows "toggleRecognize_main (e\<lparr>fetch_result := Inr (resp\<lparr>resp_chunks := cs1\<rparr>)\<rparr>) s =
         toggleRecognize_main (e\<lparr>fetch_result := Inr (resp\<lparr>resp_chunks := cs2\<rparr>)\<rparr>) s"
    and "toggleRecognize_p000 (e\<lparr>fetch_result := Inr (resp\<lparr>resp_chunks := cs1\<rparr>)\<rparr>) s =
         toggleRecognize_p000 (e\<lparr>fetch_result := Inr (resp\<lparr>resp_chunks := cs2\<rparr>)\<rparr>) s"
proof -
  have e: "read_stream on_payload (e\<lparr>fetch_result := f\<rparr>) cs x = read_stream on_payload e cs x"
    for on_payload f cs x
    by (simp add: read_stream_def)
  have m: "read_stream on_payload_main e cs1 x = read_stream on_payload_main e cs2 x" for x
    using assms by (simp add: read_stream_whole)
  have p: "read_stream on_payload_p000 e cs1 x = read_stream on_payload_p000 e cs2 x" for x
    using assms by (simp add: read_stream_whole)
  have h: "http_error (e\<lparr>fetch_result := f\<rparr>) (resp\<lparr>resp_chunks := cs\<rparr>) = http_error e resp"
    for f cs
    by (simp add: http_error_def Let_def split: sum.splits option.splits)
  have cm: "complete_main (e\<lparr>fetch_result := f\<rparr>) x = complete_main e x" for f x
    by (simp add: complete_main_def add_to_history_def Let_def)
  have cp: "complete_p000 (e\<lparr>fetch_result := f\<rparr>) b x = complete_p000 e b x" for f b x
    by (simp add: complete_p000_def add_to_history_def Let_def)
  show "toggleRecognize_main (e\<lparr>fetch_result := Inr (resp\<lparr>resp_chunks := cs1\<rparr>)\<rparr>) s =
         toggleRecognize_main (e\<lparr>fetch_result := Inr (resp\<lparr>resp_chunks := cs2\<rparr>)\<rparr>) s"
    by (simp add: toggleRecognize_main_def Let_def e m h cm split: option.splits)
  show "toggleRecognize_p000 (e\<lparr>fetch_result := Inr (resp\<lparr>resp_chunks := cs1\<rparr>)\<rparr>) s =
         toggleRecognize_p000 (e\<lparr>fetch_result := Inr (resp\<lparr>resp_chunks := cs2\<rparr>)\<rparr>) s"
    by (simp add: toggleRecognize_p000_def Let_def e p h cp split: option.splits)
qed

subsection \<open>Removing the box markers\<close>

lemma startsWith_prefix: "startsWith s p \<longleftrightarrow> prefix p s"
  unfolding startsWith_def
  by (metis append_eq_conv_conj prefix_def append_take_drop_id)

lemma endsWith_suffix: "endsWith s p \<longleftrightarrow> suffix p s"
proof
  assume "endsWith s p"
  then have "s = take (length s - length p) s @ p"
    unfolding endsWith_def by (metis append_take_drop_id)
  then show "suffix p s" unfolding suffix_def by blast
next
  assume "suffix p s"
  then obtain a where "s = a @ p" unfolding suffix_def by blast
  then show "endsWith s p" unfolding endsWith_def by simp
qed

lemma end_not_in_begin: "\<not> suffix END_MARKER BEGIN_MARKER"
  by (simp add: suffix_to_prefix END_MARKER_def BEGIN_MARKER_def)

lemma gt_only_last: "CHR ''>'' \<notin> set (butlast END_MARKER)"
  by (simp add: END_MARKER_def)

lemma last_BEGIN_MARKER: "last BEGIN_MARKER = CHR ''>''"
  by (simp add: BEGIN_MARKER_def)

text \<open>No end of the begin marker is a start of the end marker: the two cannot overlap.\<close>

lemma markers_apart:
  assumes "prefix BEGIN_MARKER t" and "suffix END_MARKER t"
  shows "\<exists>mid. t = BEGIN_MARKER @ mid @ END_MARKER"
proof -
  from assms(1) obtain r0 where t: "t = BEGIN_MARKER @ r0"
    unfolding prefix_def by blast
  from assms(2) have "suffix END_MARKER (BEGIN_MARKER @ r0)"
    unfolding t .
  then have "suffix END_MARKER r0 \<or>
      (\<exists>xs'. END_MARKER = xs' @ r0 \<and> suffix xs' BEGIN_MARKER)"
    by (simp only: suffix_append)
  then show ?thesis
  proof
    assume "suffix END_MARKER r0"
    then obtain mid where "r0 = mid @ END_MARKER" unfolding suffix_def by blast
    with t show ?thesis by blast
  next
    assume "\<exists>xs'. END_MARKER = xs' @ r0 \<and> suffix xs' BEGIN_MARKER"
    then obtain xs' where e: "END_MARKER = xs' @ r0" and s: "suffix xs' BEGIN_MARKER"
      by blast
    show ?thesis
    proof (cases "xs' = []")
      case True
      with e t show ?thesis by (metis append_Nil)
    next
      case False
      from s obtain pre where b: "BEGIN_MARKER = pre @ xs'" unfolding suffix_def by blast
      have "last xs' = last (pre @ xs')" using False by simp
      also have "\<dots> = last BEGIN_MARKER" by (simp only: b)
      finally have l: "last xs' = CHR ''>''" by (simp only: last_BEGIN_MARKER)
      show ?thesis
      proof (cases "r0 = []")
        case True
        with e s end_not_in_begin show ?thesis by (metis append_Nil2)
      next
        case r0: False
        have "butlast (xs' @ r0) = xs' @ butlast r0" using r0 by (simp add: butlast_append)
        then have "butlast END_MARKER = xs' @ butlast r0" by (simp only: e[symmetric])
        moreover have "last xs' \<in> set xs'" using False by simp
        ultimately have "CHR ''>'' \<in> set (butlast END_MARKER)"
          using l by (metis Un_iff set_append)
        with gt_only_last show ?thesis by blast
      qed
    qed
  qed
qed

lemma substring_middle:
  "substring (a @ mid @ b) (length a) (length (a @ mid @ b) - length b) = mid"
  by (simp add: substring_def Let_def)

lemma process_final_strips:
  assumes "startsWith (fullText r) BEGIN_MARKER" and "endsWith (fullText r) END_MARKER"
  shows "fullText r = BEGIN_MARKER @ fullText (process_final r) @ END_MARKER"
    and "result_display (page (process_final r)) = fullText (process_final r)"
proof -
  have "prefix BEGIN_MARKER (fullText r)" and "suffix END_MARKER (fullText r)"
    using assms by (simp_all only: startsWith_prefix endsWith_suffix)
  then obtain mid where m: "fullText r = BEGIN_MARKER @ mid @ END_MARKER"
    using markers_apart by blast
  have "substring (fullText r) (length BEGIN_MARKER)
          (length (fullText r) - length END_MARKER) = mid"
    unfolding m by (rule substring_middle)
  then have "fullText (process_final r) = mid"
    using assms by (simp add: process_final_def Let_def)
  with m show "fullText r = BEGIN_MARKER @ fullText (process_final r) @ END_MARKER"
    by simp
  show "result_display (page (process_final r)) = fullText (process_final r)"
    using assms by (simp add: process_final_def Let_def)
qed

text \<open>
  C7. Box-marker stripping. After the loop, when \<open>fullText\<close> both begins with
  \<^verbatim>\<open><|begin_of_box|>\<close> and ends with \<^verbatim>\<open><|end_of_box|>\<close>, the new \<open>fullText\<close> is what
  stands between those two markers (the old text is the begin marker, the new text and
  the end marker, in that order), and the result display shows it. In every other case,
  a text with only one of the markers included, the run is left as it is. The text
  \<^verbatim>\<open><|begin_of_box|>HELLO<|end_of_box|>\<close> gives \<^verbatim>\<open>HELLO\<close>, and \<^verbatim>\<open>HELLO\<close> stays
  \<^verbatim>\<open>HELLO\<close>. The step is the same in both files.
\<close>

theorem box_marker_stripping:
  "(startsWith (fullText r) BEGIN_MARKER \<and> endsWith (fullText r) END_MARKER \<longrightarrow>
      fullText r = BEGIN_MARKER @ fullText (process_final r) @ END_MARKER
      \<and> result_display (page (process_final r)) = fullText (process_final r)
      \<and> reasoningText (process_final r) = reasoningText r)
   \<and> (\<not> (startsWith (fullText r) BEGIN_MARKER \<and> endsWith (fullText r) END_MARKER) \<longrightarrow>
      process_final r = r)
   \<and> fullText (process_final (r\<lparr>fullText := ''<|begin_of_box|>HELLO<|end_of_box|>''\<rparr>)) = ''HELLO''
   \<and> fullText (process_final (r\<lparr>fullText := ''HELLO''\<rparr>)) = ''HELLO''"
proof (intro conjI impI)
  assume a: "startsWith (fullText r) BEGIN_MARKER \<and> endsWith (fullText r) END_MARKER"
  then show "fullText r = BEGIN_MARKER @ fullText (process_final r) @ END_MARKER"
    using process_final_strips(1) [of r] by blast
  from a show "result_display (page (process_final r)) = fullText (process_final r)"
    using process_final_strips(2) [of r] by blast
  show "reasoningText (process_final r) = reasoningText r"
    by (simp add: process_final_def Let_def)
next
  assume "\<not> (startsWith (fullText r) BEGIN_MARKER \<and> endsWith (fullText r) END_MARKER)"
  then show "process_final r = r" by (auto simp add: process_final_def)
next
  show "fullText (process_final (r\<lparr>fullText := ''<|begin_of_box|>HELLO<|end_of_box|>''\<rparr>)) = ''HELLO''"
    by (simp add: process_final_def startsWith_def endsWith_def substring_def
        BEGIN_MARKER_def END_MARKER_def Let_def)
  show "fullText (process_final (r\<lparr>fullText := ''HELLO''\<rparr>)) = ''HELLO''"
    by (simp add: process_final_def startsWith_def endsWith_def BEGIN_MARKER_def
        END_MARKER_def Let_def)
qed

theorem box_marker_stripping_witness:
  "startsWith (fullText boxed_run) BEGIN_MARKER
   \<and> endsWith (fullText boxed_run) END_MARKER
   \<and> fullText boxed_run = BEGIN_MARKER @ fullText (process_final boxed_run) @ END_MARKER
   \<and> fullText (process_final boxed_run) = ''HELLO''
   \<and> result_display (page (process_final boxed_run)) = ''HELLO''
   \<and> \<not> (startsWith (fullText one_marker_run) BEGIN_MARKER
          \<and> endsWith (fullText one_marker_run) END_MARKER)
   \<and> process_final one_marker_run = one_marker_run"
proof -
  have h1: "startsWith (fullText boxed_run) BEGIN_MARKER"
    by (simp add: boxed_run_def startsWith_def BEGIN_MARKER_def)
  have h2: "endsWith (fullText boxed_run) END_MARKER"
    by (simp add: boxed_run_def endsWith_def END_MARKER_def)
  have h3: "\<not> (startsWith (fullText one_marker_run) BEGIN_MARKER
          \<and> endsWith (fullText one_marker_run) END_MARKER)"
    by (simp add: one_marker_run_def endsWith_def END_MARKER_def)
  have v: "fullText (process_final boxed_run) = ''HELLO''"
    by (simp add: boxed_run_def process_final_def startsWith_def endsWith_def
        substring_def BEGIN_MARKER_def END_MARKER_def Let_def)
  have c1: "fullText boxed_run = BEGIN_MARKER @ fullText (process_final boxed_run) @ END_MARKER
      \<and> result_display (page (process_final boxed_run)) = fullText (process_final boxed_run)"
    using box_marker_stripping [of boxed_run] h1 h2 by blast
  have c2: "process_final one_marker_run = one_marker_run"
    using box_marker_stripping [of one_marker_run] h3 by blast
  from c1 v have d: "result_display (page (process_final boxed_run)) = ''HELLO''"
    by (simp only:)
  from h1 h2 h3 c1 c2 v d show ?thesis by blast
qed

subsection \<open>What the lines of a stream leave alone\<close>

lemma untouched_refl: "untouched s s"
  by (simp add: untouched_def)

lemma untouched_show_main: "untouched s (showReasoningContent_main c s') = untouched s s'"
  by (simp add: untouched_def showReasoningContent_main_def hideReasoningContent_main_def Let_def)

lemma untouched_show_p000: "untouched s (showReasoningContent_p000 c s') = untouched s s'"
  by (simp add: untouched_def showReasoningContent_p000_def hideReasoningContent_p000_def Let_def)

lemma untouched_parse_error: "untouched s (page (parse_error r)) = untouched s (page r)"
  by (simp add: untouched_def parse_error_def)

lemma untouched_add_content:
  "add_content v r = Some r' \<Longrightarrow> \<forall>s. untouched s (page r') = untouched s (page r)"
  by (auto simp: untouched_def add_content_def split: option.splits)

lemma untouched_add_reasoning_main:
  "add_reasoning showReasoningContent_main v r = Some r' \<Longrightarrow>
   \<forall>s. untouched s (page r') = untouched s (page r)"
  by (auto simp: add_reasoning_def untouched_show_main split: option.splits)

lemma untouched_add_reasoning_p000:
  "add_reasoning showReasoningContent_p000 v r = Some r' \<Longrightarrow>
   \<forall>s. untouched s (page r') = untouched s (page r)"
  by (auto simp: add_reasoning_def untouched_show_p000 split: option.splits)

lemma untouched_on_content_main:
  "untouched s (page (on_content_main c d r)) = untouched s (page r)"
  unfolding on_content_main_def
  by (auto simp: untouched_parse_error split: option.splits
      dest!: untouched_add_content untouched_add_reasoning_main)

lemma untouched_on_payload_main:
  "untouched s (page (on_payload_main j r)) = untouched s (page r)"
  by (simp add: on_payload_main_def Let_def untouched_parse_error untouched_on_content_main
      split: option.splits)

lemma untouched_on_tagged_p000:
  "untouched s (page (on_tagged_p000 j r)) = untouched s (page r)"
  unfolding on_tagged_p000_def Let_def
  by (auto simp: untouched_parse_error split: option.splits
      dest!: untouched_add_reasoning_p000)

lemma untouched_on_delta_p000:
  "untouched s (page (on_delta_p000 d r)) = untouched s (page r)"
  unfolding on_delta_p000_def Let_def
  by (auto simp: untouched_parse_error split: option.splits if_splits
      dest!: untouched_add_content untouched_add_reasoning_p000)

lemma untouched_on_payload_p000:
  "untouched s (page (on_payload_p000 j r)) = untouched s (page r)"
  by (simp add: on_payload_p000_def untouched_parse_error untouched_on_tagged_p000
      untouched_on_delta_p000 split: option.splits)

lemma untouched_for_line:
  assumes "\<And>s j r. untouched s (page (on_payload j r)) = untouched s (page r)"
  shows "untouched s (page (for_line on_payload parse l r)) = untouched s (page r)"
  by (simp add: for_line_def Let_def assms untouched_parse_error split: option.splits)

lemma untouched_fold:
  assumes "\<And>s j r. untouched s (page (on_payload j r)) = untouched s (page r)"
  shows "untouched s (page (fold (for_line on_payload parse) ls r)) = untouched s (page r)"
  by (induction ls arbitrary: r) (simp_all add: untouched_for_line [OF assms])

lemma untouched_read_loop:
  assumes "\<And>s j r. untouched s (page (on_payload j r)) = untouched s (page r)"
  shows "untouched s (page (snd (snd (read_loop dec (for_line on_payload parse) cs (d, b, r)))))
         = untouched s (page r)"
proof (induction cs arbitrary: d b r)
  case Nil
  show ?case by simp
next
  case (Cons c cs)
  obtain t d1 where c: "dec d c = (t, d1)" by (cases "dec d c")
  show ?case by (simp add: c Let_def Cons.IH untouched_fold [OF assms])
qed

lemma untouched_read_stream_main:
  "untouched s (page (read_stream on_payload_main e cs s))"
  by (simp add: read_stream_def untouched_read_loop [OF untouched_on_payload_main] untouched_refl)

lemma untouched_read_stream_p000:
  "untouched s (page (read_stream on_payload_p000 e cs s))"
  by (simp add: read_stream_def untouched_read_loop [OF untouched_on_payload_p000] untouched_refl)

subsection \<open>Runs that read their stream to the end\<close>

lemma before_fetch_main_fields:
  "status_text (before_fetch_main s) = ''Processing...''"
  "status_class (before_fetch_main s) = ''processing''"
  "sessionHistory (before_fetch_main s) = sessionHistory s"
  "timeouts (before_fetch_main s) = timeouts s"
  "requests (before_fetch_main s) = requests s @ [requestData s]"
  "alerts (before_fetch_main s) = alerts s"
  by (simp_all add: before_fetch_main_def send_request_def begin_main_def updateStatus_def
      hideReasoningContent_main_def requestData_def Let_def)

lemma before_fetch_p000_fields:
  "status_text (before_fetch_p000 s) = ''Processing...''"
  "status_class (before_fetch_p000 s) = ''processing''"
  "sessionHistory (before_fetch_p000 s) = sessionHistory s"
  "timeouts (before_fetch_p000 s) = timeouts s"
  "requests (before_fetch_p000 s) = requests s @ [requestData s]"
  "alerts (before_fetch_p000 s) = alerts s"
  by (simp_all add: before_fetch_p000_def send_request_def begin_p000_def updateStatus_def
      set_boxes_def requestData_def Let_def)

lemma process_final_page:
  "untouched s (page (process_final r)) = untouched s (page r)"
  by (simp add: process_final_def untouched_def Let_def)

lemma process_final_empty: "fullText r = [] \<Longrightarrow> process_final r = r"
  by (simp add: process_final_def startsWith_def BEGIN_MARKER_def)

text \<open>A run whose request is answered ok and whose reads end with \<^verbatim>\<open>done\<close>.\<close>

lemma toggleRecognize_main_done:
  assumes "\<not> isRecognizing s" "currentImages s \<noteq> []" "fetch_result e = Inr resp"
    "resp_ok resp" "\<not> resp_body_null resp" "resp_end resp = None"
  shows "toggleRecognize_main e s =
    finally_block (complete_main e
      (process_final (read_stream on_payload_main e (resp_chunks resp) (before_fetch_main s))))"
  using assms by (simp add: toggleRecognize_main_def Let_def)

lemma toggleRecognize_p000_done:
  assumes "\<not> isRecognizing s" "currentImages s \<noteq> []" "fetch_result e = Inr resp"
    "resp_ok resp" "\<not> resp_body_null resp" "resp_end resp = None"
  shows "toggleRecognize_p000 e s =
    finally_block (complete_p000 e (reasoning_toggle s)
      (process_final (read_stream on_payload_p000 e (resp_chunks resp) (before_fetch_p000 s))))"
  using assms by (simp add: toggleRecognize_p000_def Let_def)

lemma after_stream_main:
  "untouched (before_fetch_main s)
     (page (process_final (read_stream on_payload_main e cs (before_fetch_main s))))"
  by (simp add: process_final_page untouched_read_stream_main)

lemma after_stream_p000:
  "untouched (before_fetch_p000 s)
     (page (process_final (read_stream on_payload_p000 e cs (before_fetch_p000 s))))"
  by (simp add: process_final_page untouched_read_stream_p000)

lemma history_main:
  assumes "\<not> isRecognizing s" "currentImages s \<noteq> []" "fetch_result e = Inr resp"
    "resp_ok resp" "\<not> resp_body_null resp" "resp_end resp = None"
    and "r = process_final (read_stream on_payload_main e (resp_chunks resp) (before_fetch_main s))"
    and "fullText r \<noteq> []"
  shows "sessionHistory (toggleRecognize_main e s) =
     \<lparr>h_id = Date_now e, h_time = toLocaleTimeString e, h_text = fullText r\<rparr>
       # sessionHistory s"
proof -
  have "untouched (before_fetch_main s) (page r)"
    unfolding assms(7) by (rule after_stream_main)
  then have "sessionHistory (page r) = sessionHistory s"
    by (simp add: untouched_def before_fetch_main_fields)
  then show ?thesis
    using assms(8)
    unfolding toggleRecognize_main_done [OF assms(1-6)] assms(7)[symmetric]
    by (simp add: finally_block_def complete_main_def add_to_history_def updateStatus_def Let_def)
qed

lemma history_p000:
  assumes "\<not> isRecognizing s" "currentImages s \<noteq> []" "fetch_result e = Inr resp"
    "resp_ok resp" "\<not> resp_body_null resp" "resp_end resp = None"
    and "r = process_final (read_stream on_payload_p000 e (resp_chunks resp) (before_fetch_p000 s))"
    and "fullText r \<noteq> []"
  shows "sessionHistory (toggleRecognize_p000 e s) =
     \<lparr>h_id = Date_now e, h_time = toLocaleTimeString e, h_text = fullText r\<rparr>
       # sessionHistory s"
proof -
  have "untouched (before_fetch_p000 s) (page r)"
    unfolding assms(7) by (rule after_stream_p000)
  then have "sessionHistory (page r) = sessionHistory s"
    by (simp add: untouched_def before_fetch_p000_fields)
  then show ?thesis
    using assms(8)
    unfolding toggleRecognize_p000_done [OF assms(1-6)] assms(7)[symmetric]
    by (simp add: finally_block_def complete_p000_def add_to_history_def updateStatus_def Let_def)
qed

subsection \<open>The sample inputs\<close>

lemma env_quiet_fetch: "fetch_result env_quiet = Inr (ok_response stream_quiet)"
  by (simp add: env_quiet_def sample_env_def)

lemma ok_response_fields:
  "resp_ok (ok_response cs)" "\<not> resp_body_null (ok_response cs)"
  "resp_end (ok_response cs) = None" "resp_chunks (ok_response cs) = cs"
  by (simp_all add: ok_response_def)

lemma page0_startable: "\<not> isRecognizing page0" "currentImages page0 \<noteq> []"
  by (simp_all add: page0_def)

lemma env_hi_fetch: "fetch_result env_hi = Inr (ok_response stream_hi)"
  by (simp add: env_hi_def sample_env_def)

subsection \<open>A console line more or less changes nothing else\<close>

lemma show_main_console:
  "showReasoningContent_main c (s\<lparr>console := x\<rparr>) = (showReasoningContent_main c s)\<lparr>console := x\<rparr>"
  by (simp add: showReasoningContent_main_def hideReasoningContent_main_def Let_def)

lemma show_p000_console:
  "showReasoningContent_p000 c (s\<lparr>console := x\<rparr>) = (showReasoningContent_p000 c s)\<lparr>console := x\<rparr>"
  by (simp add: showReasoningContent_p000_def hideReasoningContent_p000_def Let_def)

lemma console_show_main: "console (showReasoningContent_main c s) = console s"
  by (simp add: showReasoningContent_main_def hideReasoningContent_main_def Let_def)

lemma console_show_p000: "console (showReasoningContent_p000 c s) = console s"
  by (simp add: showReasoningContent_p000_def hideReasoningContent_p000_def Let_def)

lemma add_content_parse_error:
  "add_content v (parse_error r) = map_option parse_error (add_content v r)"
  by (simp add: add_content_def parse_error_def split: option.splits)

lemma add_reasoning_main_parse_error:
  "add_reasoning showReasoningContent_main v (parse_error r) =
   map_option parse_error (add_reasoning showReasoningContent_main v r)"
  by (simp add: add_reasoning_def parse_error_def show_main_console console_show_main
      split: option.splits)

lemma add_reasoning_p000_parse_error:
  "add_reasoning showReasoningContent_p000 v (parse_error r) =
   map_option parse_error (add_reasoning showReasoningContent_p000 v r)"
  by (simp add: add_reasoning_def parse_error_def show_p000_console console_show_p000
      split: option.splits)

lemma on_content_main_parse_error:
  "on_content_main c d (parse_error r) = parse_error (on_content_main c d r)"
  unfolding on_content_main_def
  by (simp add: add_content_parse_error add_reasoning_main_parse_error split: option.splits)

lemma on_payload_main_parse_error:
  "on_payload_main j (parse_error r) = parse_error (on_payload_main j r)"
  by (simp add: on_payload_main_def Let_def on_content_main_parse_error split: option.splits)

lemma on_tagged_p000_parse_error:
  "on_tagged_p000 j (parse_error r) = parse_error (on_tagged_p000 j r)"
  unfolding on_tagged_p000_def Let_def
  by (simp add: add_reasoning_p000_parse_error split: option.splits)

lemma on_delta_p000_parse_error:
  "on_delta_p000 d (parse_error r) = parse_error (on_delta_p000 d r)"
  unfolding on_delta_p000_def Let_def
  by (simp add: add_content_parse_error add_reasoning_p000_parse_error split: option.splits)

lemma on_payload_p000_parse_error:
  "on_payload_p000 j (parse_error r) = parse_error (on_payload_p000 j r)"
  by (simp add: on_payload_p000_def on_tagged_p000_parse_error on_delta_p000_parse_error
      split: option.splits)

lemma for_line_parse_error:
  assumes "\<And>j r. on_payload j (parse_error r) = parse_error (on_payload j r)"
  shows "for_line on_payload parse l (parse_error r) = parse_error (for_line on_payload parse l r)"
  by (simp add: for_line_def Let_def assms split: option.splits)

lemma fold_parse_error:
  assumes "\<And>j r. on_payload j (parse_error r) = parse_error (on_payload j r)"
  shows "fold (for_line on_payload parse) ls (parse_error r) =
         parse_error (fold (for_line on_payload parse) ls r)"
proof (induction ls arbitrary: r)
  case Nil
  show ?case by simp
next
  case (Cons l ls)
  have "for_line on_payload parse l (parse_error r) =
        parse_error (for_line on_payload parse l r)"
    using assms by (rule for_line_parse_error)
  then show ?case by (simp add: Cons.IH)
qed

lemma for_line_undecodable:
  assumes "startsWith (trim line) ''data: ''" and "parse (drop 6 (trim line)) = None"
  shows "for_line on_payload parse line r =
         (if trim line = ''data: [DONE]'' then r else parse_error r)"
  using assms by (auto simp: for_line_def Let_def startsWith_def)

lemma for_line_skipped:
  assumes "trim line = [] \<or> trim line = ''data: [DONE]''"
  shows "for_line on_payload parse line r = r"
  using assms by (auto simp: for_line_def Let_def)

subsection \<open>Starting with no image, and ending with no text\<close>

text \<open>
  C9. Zero-image validation. When \<^verbatim>\<open>toggleRecognize\<close> is called with no run in progress
  and no staged image, it returns the page it was given with one more alert,
  \<^verbatim>\<open>Please add images.\<close>, and nothing else: the status indicator, the button, the text
  displays, the staged images and the history are as before, \<open>isRecognizing\<close> stays
  false, and no request is sent. This holds in both files.
\<close>

theorem zero_image_validation:
  assumes "\<not> isRecognizing s" and "currentImages s = []"
  shows "toggleRecognize_main e s = s\<lparr>alerts := alerts s @ [''Please add images.'']\<rparr>
       \<and> toggleRecognize_p000 e' s = s\<lparr>alerts := alerts s @ [''Please add images.'']\<rparr>
       \<and> requests (toggleRecognize_main e s) = requests s
       \<and> requests (toggleRecognize_p000 e' s) = requests s
       \<and> status_text (toggleRecognize_main e s) = status_text s
       \<and> status_text (toggleRecognize_p000 e' s) = status_text s
       \<and> \<not> isRecognizing (toggleRecognize_main e s)
       \<and> \<not> isRecognizing (toggleRecognize_p000 e' s)"
  using assms by (simp add: toggleRecognize_main_def toggleRecognize_p000_def alert_def)

theorem zero_image_validation_witness:
  "\<not> isRecognizing page_no_images \<and> currentImages page_no_images = []
   \<and> toggleRecognize_main env_hi page_no_images =
       page_no_images\<lparr>alerts := [''Please add images.'']\<rparr>
   \<and> toggleRecognize_p000 env_hi page_no_images =
       page_no_images\<lparr>alerts := [''Please add images.'']\<rparr>
   \<and> requests (toggleRecognize_p000 env_hi page_no_images) = []
   \<and> status_text (toggleRecognize_p000 env_hi page_no_images) = ''Ready''"
proof -
  have h1: "\<not> isRecognizing page_no_images"
    by (simp add: page_no_images_def page0_def)
  have h2: "currentImages page_no_images = []"
    by (simp add: page_no_images_def)
  have a: "alerts page_no_images = []" "requests page_no_images = []"
    "status_text page_no_images = ''Ready''"
    by (simp_all add: page_no_images_def page0_def)
  from zero_image_validation [OF h1 h2, of env_hi env_hi] h1 h2 a
  show ?thesis by simp
qed

text \<open>
  C10. Empty-result stream end. Take a run that starts (no run in progress, an image
  staged), whose request is answered ok and whose reads end with \<^verbatim>\<open>done\<close>. If
  \<open>fullText\<close> is still empty when the loop is left, the status indicator is left at
  \<^verbatim>\<open>Processing...\<close> with the class \<^verbatim>\<open>processing\<close> (there is no \<^verbatim>\<open>Done\<close>), the history
  is as before, no timeout is set, \<open>isRecognizing\<close> is false again and the button reads
  \<^verbatim>\<open>Start\<close> without the class \<^verbatim>\<open>btn-stop\<close>. This holds in both files.
\<close>

theorem empty_result_stream_end:
  assumes "\<not> isRecognizing s" and "currentImages s \<noteq> []"
    and "fetch_result e = Inr resp" and "resp_ok resp" and "\<not> resp_body_null resp"
    and "resp_end resp = None"
  shows "(fullText (read_stream on_payload_main e (resp_chunks resp) (before_fetch_main s)) = []
          \<longrightarrow> status_text (toggleRecognize_main e s) = ''Processing...''
            \<and> status_class (toggleRecognize_main e s) = ''processing''
            \<and> sessionHistory (toggleRecognize_main e s) = sessionHistory s
            \<and> timeouts (toggleRecognize_main e s) = timeouts s
            \<and> \<not> isRecognizing (toggleRecognize_main e s)
            \<and> btn_text (toggleRecognize_main e s) = ''Start''
            \<and> \<not> btn_stop (toggleRecognize_main e s))
       \<and> (fullText (read_stream on_payload_p000 e (resp_chunks resp) (before_fetch_p000 s)) = []
          \<longrightarrow> status_text (toggleRecognize_p000 e s) = ''Processing...''
            \<and> status_class (toggleRecognize_p000 e s) = ''processing''
            \<and> sessionHistory (toggleRecognize_p000 e s) = sessionHistory s
            \<and> timeouts (toggleRecognize_p000 e s) = timeouts s
            \<and> \<not> isRecognizing (toggleRecognize_p000 e s)
            \<and> btn_text (toggleRecognize_p000 e s) = ''Start''
            \<and> \<not> btn_stop (toggleRecognize_p000 e s))"
proof (intro conjI impI)
  let ?r = "read_stream on_payload_main e (resp_chunks resp) (before_fetch_main s)"
  assume empty: "fullText ?r = []"
  have u: "untouched (before_fetch_main s) (page ?r)"
    by (rule untouched_read_stream_main)
  have t: "toggleRecognize_main e s = finally_block (page ?r)"
    unfolding toggleRecognize_main_done [OF assms]
    by (simp add: process_final_empty [OF empty] complete_main_def empty)
  show "status_text (toggleRecognize_main e s) = ''Processing...''"
    and "status_class (toggleRecognize_main e s) = ''processing''"
    and "sessionHistory (toggleRecognize_main e s) = sessionHistory s"
    and "timeouts (toggleRecognize_main e s) = timeouts s"
    and "\<not> isRecognizing (toggleRecognize_main e s)"
    and "btn_text (toggleRecognize_main e s) = ''Start''"
    and "\<not> btn_stop (toggleRecognize_main e s)"
    using u unfolding t
    by (simp_all add: finally_block_def untouched_def before_fetch_main_fields)
next
  let ?r = "read_stream on_payload_p000 e (resp_chunks resp) (before_fetch_p000 s)"
  assume empty: "fullText ?r = []"
  have u: "untouched (before_fetch_p000 s) (page ?r)"
    by (rule untouched_read_stream_p000)
  have t: "toggleRecognize_p000 e s = finally_block (page ?r)"
    unfolding toggleRecognize_p000_done [OF assms]
    by (simp add: process_final_empty [OF empty] complete_p000_def empty)
  show "status_text (toggleRecognize_p000 e s) = ''Processing...''"
    and "status_class (toggleRecognize_p000 e s) = ''processing''"
    and "sessionHistory (toggleRecognize_p000 e s) = sessionHistory s"
    and "timeouts (toggleRecognize_p000 e s) = timeouts s"
    and "\<not> isRecognizing (toggleRecognize_p000 e s)"
    and "btn_text (toggleRecognize_p000 e s) = ''Start''"
    and "\<not> btn_stop (toggleRecognize_p000 e s)"
    using u unfolding t
    by (simp_all add: finally_block_def untouched_def before_fetch_p000_fields)
qed

theorem empty_result_stream_end_witness:
  "\<not> isRecognizing page0 \<and> currentImages page0 \<noteq> []
   \<and> fetch_result env_quiet = Inr (ok_response stream_quiet)
   \<and> resp_ok (ok_response stream_quiet) \<and> \<not> resp_body_null (ok_response stream_quiet)
   \<and> resp_end (ok_response stream_quiet) = None
   \<and> fullText (read_stream on_payload_main env_quiet (resp_chunks (ok_response stream_quiet))
        (before_fetch_main page0)) = []
   \<and> fullText (read_stream on_payload_p000 env_quiet (resp_chunks (ok_response stream_quiet))
        (before_fetch_p000 page0)) = []
   \<and> reasoningText (read_stream on_payload_p000 env_quiet
        (resp_chunks (ok_response stream_quiet)) (before_fetch_p000 page0)) = ''think''
   \<and> status_text (toggleRecognize_main env_quiet page0) = ''Processing...''
   \<and> status_text (toggleRecognize_p000 env_quiet page0) = ''Processing...''
   \<and> sessionHistory (toggleRecognize_main env_quiet page0) = sessionHistory page0
   \<and> sessionHistory (toggleRecognize_p000 env_quiet page0) = sessionHistory page0
   \<and> btn_text (toggleRecognize_main env_quiet page0) = ''Start''
   \<and> btn_text (toggleRecognize_p000 env_quiet page0) = ''Start''"
proof -
  have m: "fullText (read_stream on_payload_main env_quiet
        (resp_chunks (ok_response stream_quiet)) (before_fetch_main page0)) = []"
    by code_simp
  have p: "fullText (read_stream on_payload_p000 env_quiet
        (resp_chunks (ok_response stream_quiet)) (before_fetch_p000 page0)) = []"
    by code_simp
  have q: "reasoningText (read_stream on_payload_p000 env_quiet
        (resp_chunks (ok_response stream_quiet)) (before_fetch_p000 page0)) = ''think''"
    by code_simp
  note th = empty_result_stream_end [OF page0_startable env_quiet_fetch
      ok_response_fields(1-3)]
  from th m p q page0_startable env_quiet_fetch ok_response_fields(1-3) [of stream_quiet]
  show ?thesis by blast
qed

subsection \<open>Lines that are skipped\<close>

lemma no_console_parse_error: "no_console (parse_error r) = no_console r"
  by (simp add: no_console_def parse_error_def)

lemma fold_without_line:
  assumes "for_line on_payload parse line = (\<lambda>r. r)"
  shows "fold (for_line on_payload parse) (before @ line # rest) r =
         fold (for_line on_payload parse) (before @ rest) r"
  by (simp add: assms)

text \<open>
  C4, as the code has it. A blank line and the line \<^verbatim>\<open>data: [DONE]\<close> (white space around
  either aside) are skipped: the run is left exactly as it was. The loop goes on to the
  next line, so a stream gives the same run with such a line as without it; the reading
  ends only when the stream of bytes does. This holds in both files.
\<close>

theorem blank_and_sentinel_lines_are_skipped:
  assumes "trim line = [] \<or> trim line = ''data: [DONE]''"
  shows "for_line on_payload_main parse line r = r
       \<and> for_line on_payload_p000 parse line r = r
       \<and> fold (for_line on_payload_main parse) (before @ line # rest) r =
         fold (for_line on_payload_main parse) (before @ rest) r
       \<and> fold (for_line on_payload_p000 parse) (before @ line # rest) r =
         fold (for_line on_payload_p000 parse) (before @ rest) r"
proof -
  have "for_line on_payload parse line x = x" for on_payload x
    using assms by (rule for_line_skipped)
  then show ?thesis by simp
qed

theorem blank_and_sentinel_lines_are_skipped_witness:
  "(trim (''data: [DONE]'' @ [CHR 0x0D]) = [] \<or>
      trim (''data: [DONE]'' @ [CHR 0x0D]) = ''data: [DONE]'')
   \<and> for_line on_payload_main sample_parse (''data: [DONE]'' @ [CHR 0x0D]) run0 = run0
   \<and> for_line on_payload_p000 sample_parse (''data: [DONE]'' @ [CHR 0x0D]) run0 = run0
   \<and> fold (for_line on_payload_main sample_parse)
        ([] @ (''data: [DONE]'' @ [CHR 0x0D]) # [''data: '' @ payload_hi]) run0 =
      fold (for_line on_payload_main sample_parse) ([] @ [''data: '' @ payload_hi]) run0
   \<and> fold (for_line on_payload_p000 sample_parse)
        ([] @ (''data: [DONE]'' @ [CHR 0x0D]) # [''data: '' @ payload_hi]) run0 =
      fold (for_line on_payload_p000 sample_parse) ([] @ [''data: '' @ payload_hi]) run0"
proof -
  have h: "trim (''data: [DONE]'' @ [CHR 0x0D]) = [] \<or>
      trim (''data: [DONE]'' @ [CHR 0x0D]) = ''data: [DONE]''"
    by (simp add: trim_def is_ws_def)
  from h blank_and_sentinel_lines_are_skipped [OF h, of sample_parse run0 "[]"
      "[''data: '' @ payload_hi]"]
  show ?thesis by blast
qed

text \<open>
  The claim as stated fails: a content line that follows the sentinel is still appended,
  and the run ends with \<^verbatim>\<open>Done\<close> and that text.
\<close>

theorem sentinel_stops_counterexample:
  "fullText (read_stream on_payload_p000 env_after_done stream_after_done
      (before_fetch_p000 page0)) = ''Hi''
   \<and> fullText (read_stream on_payload_main env_after_done stream_after_done
      (before_fetch_main page0)) = ''Hi''
   \<and> fullText (read_stream on_payload_p000 env_after_done stream_after_done
      (before_fetch_p000 page0)) \<noteq> []
   \<and> status_text (toggleRecognize_p000 env_after_done page0) = ''Done''
   \<and> status_text (toggleRecognize_main env_after_done page0) = ''Done''
   \<and> result_display (toggleRecognize_p000 env_after_done page0) = ''Hi''"
  by code_simp

text \<open>
  C8. Per-line parse-error recovery. For a line that carries the prefix \<^verbatim>\<open>data: \<close> and
  whose payload makes \<^verbatim>\<open>JSON.parse\<close> throw, the body of the loop only writes
  \<^verbatim>\<open>Parse error\<close> to the console (not even that when the line is the sentinel
  \<^verbatim>\<open>data: [DONE]\<close>): \<open>fullText\<close>, \<open>reasoningText\<close> and everything on the page are as
  before, status indicator and alerts included. The loop goes on, and the stream gives,
  console aside, the same run with the line as without it. This holds in both files.
\<close>

theorem parse_error_recovery:
  assumes "startsWith (trim line) ''data: ''" and "parse (drop 6 (trim line)) = None"
  shows "for_line on_payload_main parse line r =
           (if trim line = ''data: [DONE]'' then r else parse_error r)
       \<and> for_line on_payload_p000 parse line r =
           (if trim line = ''data: [DONE]'' then r else parse_error r)
       \<and> no_console (for_line on_payload_main parse line r) = no_console r
       \<and> no_console (for_line on_payload_p000 parse line r) = no_console r
       \<and> no_console (fold (for_line on_payload_main parse) (before @ line # rest) r) =
         no_console (fold (for_line on_payload_main parse) (before @ rest) r)
       \<and> no_console (fold (for_line on_payload_p000 parse) (before @ line # rest) r) =
         no_console (fold (for_line on_payload_p000 parse) (before @ rest) r)"
proof -
  have line: "for_line on_payload parse line x =
      (if trim line = ''data: [DONE]'' then x else parse_error x)" for on_payload x
    using assms by (rule for_line_undecodable)
  have m: "no_console (fold (for_line on_payload_main parse) (before @ line # rest) r) =
         no_console (fold (for_line on_payload_main parse) (before @ rest) r)"
    by (simp add: line fold_parse_error [of on_payload_main, OF on_payload_main_parse_error]
        no_console_parse_error)
  have p: "no_console (fold (for_line on_payload_p000 parse) (before @ line # rest) r) =
         no_console (fold (for_line on_payload_p000 parse) (before @ rest) r)"
    by (simp add: line fold_parse_error [of on_payload_p000, OF on_payload_p000_parse_error]
        no_console_parse_error)
  have "for_line on_payload_main parse line r =
           (if trim line = ''data: [DONE]'' then r else parse_error r)"
    and "for_line on_payload_p000 parse line r =
           (if trim line = ''data: [DONE]'' then r else parse_error r)"
    and "no_console (for_line on_payload_main parse line r) = no_console r"
    and "no_console (for_line on_payload_p000 parse line r) = no_console r"
    by (simp_all add: line no_console_parse_error)
  with m p show ?thesis by blast
qed

theorem parse_error_recovery_witness:
  "startsWith (trim (''data: '' @ payload_cut)) ''data: ''
   \<and> sample_parse (drop 6 (trim (''data: '' @ payload_cut))) = None
   \<and> for_line on_payload_main sample_parse (''data: '' @ payload_cut) run0 = parse_error run0
   \<and> for_line on_payload_p000 sample_parse (''data: '' @ payload_cut) run0 = parse_error run0
   \<and> no_console (fold (for_line on_payload_main sample_parse)
        ([] @ (''data: '' @ payload_cut) # [''data: '' @ payload_hi]) run0) =
      no_console (fold (for_line on_payload_main sample_parse)
        ([] @ [''data: '' @ payload_hi]) run0)
   \<and> no_console (fold (for_line on_payload_p000 sample_parse)
        ([] @ (''data: '' @ payload_cut) # [''data: '' @ payload_hi]) run0) =
      no_console (fold (for_line on_payload_p000 sample_parse)
        ([] @ [''data: '' @ payload_hi]) run0)
   \<and> fullText (fold (for_line on_payload_p000 sample_parse)
        ([] @ (''data: '' @ payload_cut) # [''data: '' @ payload_hi]) run0) = ''Hi''"
proof -
  have t: "trim (''data: '' @ payload_cut) = ''data: '' @ payload_cut"
    by (simp add: trim_def is_ws_def payload_cut_def)
  have h1: "startsWith (trim (''data: '' @ payload_cut)) ''data: ''"
    unfolding t by (simp add: startsWith_def)
  have h2: "sample_parse (drop 6 (trim (''data: '' @ payload_cut))) = None"
    unfolding t
    by (simp add: sample_parse_def payload_cut_def payload_hi_def payload_think_def
        payload_tagged_def)
  have n: "trim (''data: '' @ payload_cut) \<noteq> ''data: [DONE]''"
    unfolding t by (simp add: payload_cut_def)
  have v: "fullText (fold (for_line on_payload_p000 sample_parse)
        ([] @ (''data: '' @ payload_cut) # [''data: '' @ payload_hi]) run0) = ''Hi''"
    by code_simp
  note th = parse_error_recovery [where line = "''data: '' @ payload_cut"
      and parse = sample_parse and r = run0 and before = "[]"
      and rest = "[''data: '' @ payload_hi]", OF h1 h2]
  from th n
  have a: "for_line on_payload_main sample_parse (''data: '' @ payload_cut) run0 =
      parse_error run0"
    and b: "for_line on_payload_p000 sample_parse (''data: '' @ payload_cut) run0 =
      parse_error run0"
    by metis+
  from th a b h1 h2 v show ?thesis by blast
qed

subsection \<open>The history\<close>

text \<open>
  C5, as the code has it. Take a run that starts, whose request is answered ok and whose
  reads end with \<^verbatim>\<open>done\<close>. If the final text (after the markers are removed) is not
  empty, \<^verbatim>\<open>sessionHistory\<close> afterwards is one new entry followed by the list as it was:
  the entry \<^verbatim>\<open>{id, time, text}\<close> holds \<^verbatim>\<open>Date.now()\<close>, the local time string and the
  final text, and it is put at the front (\<^verbatim>\<open>unshift\<close>), so every earlier entry is
  unchanged, keeps its order and moves one place back. This holds in both files.
\<close>

theorem history_entry_in_front:
  assumes "\<not> isRecognizing s" and "currentImages s \<noteq> []"
    and "fetch_result e = Inr resp" and "resp_ok resp" and "\<not> resp_body_null resp"
    and "resp_end resp = None"
  shows "(fullText (process_final (read_stream on_payload_main e (resp_chunks resp)
                      (before_fetch_main s))) \<noteq> [] \<longrightarrow>
          sessionHistory (toggleRecognize_main e s) =
            \<lparr>h_id = Date_now e, h_time = toLocaleTimeString e,
             h_text = fullText (process_final (read_stream on_payload_main e (resp_chunks resp)
                        (before_fetch_main s)))\<rparr> # sessionHistory s)
       \<and> (fullText (process_final (read_stream on_payload_p000 e (resp_chunks resp)
                      (before_fetch_p000 s))) \<noteq> [] \<longrightarrow>
          sessionHistory (toggleRecognize_p000 e s) =
            \<lparr>h_id = Date_now e, h_time = toLocaleTimeString e,
             h_text = fullText (process_final (read_stream on_payload_p000 e (resp_chunks resp)
                        (before_fetch_p000 s)))\<rparr> # sessionHistory s)"
  using history_main [OF assms refl] history_p000 [OF assms refl] by blast

theorem history_entry_in_front_witness:
  "\<not> isRecognizing page0 \<and> currentImages page0 \<noteq> []
   \<and> fetch_result env_hi = Inr (ok_response stream_hi)
   \<and> resp_ok (ok_response stream_hi) \<and> \<not> resp_body_null (ok_response stream_hi)
   \<and> resp_end (ok_response stream_hi) = None
   \<and> fullText (process_final (read_stream on_payload_main env_hi
        (resp_chunks (ok_response stream_hi)) (before_fetch_main page0))) = ''Hi''
   \<and> fullText (process_final (read_stream on_payload_p000 env_hi
        (resp_chunks (ok_response stream_hi)) (before_fetch_p000 page0))) = ''Hi''
   \<and> sessionHistory (toggleRecognize_main env_hi page0) =
        \<lparr>h_id = Date_now env_hi, h_time = toLocaleTimeString env_hi, h_text = ''Hi''\<rparr>
          # sessionHistory page0
   \<and> sessionHistory (toggleRecognize_p000 env_hi page0) =
        \<lparr>h_id = Date_now env_hi, h_time = toLocaleTimeString env_hi, h_text = ''Hi''\<rparr>
          # sessionHistory page0"
proof -
  have m: "fullText (process_final (read_stream on_payload_main env_hi
        (resp_chunks (ok_response stream_hi)) (before_fetch_main page0))) = ''Hi''"
    by code_simp
  have p: "fullText (process_final (read_stream on_payload_p000 env_hi
        (resp_chunks (ok_response stream_hi)) (before_fetch_p000 page0))) = ''Hi''"
    by code_simp
  note th = history_entry_in_front [OF page0_startable env_hi_fetch ok_response_fields(1-3)]
  have m': "sessionHistory (toggleRecognize_main env_hi page0) =
        \<lparr>h_id = Date_now env_hi, h_time = toLocaleTimeString env_hi, h_text = ''Hi''\<rparr>
          # sessionHistory page0"
    using th m by (metis list.distinct(1))
  have p': "sessionHistory (toggleRecognize_p000 env_hi page0) =
        \<lparr>h_id = Date_now env_hi, h_time = toLocaleTimeString env_hi, h_text = ''Hi''\<rparr>
          # sessionHistory page0"
    using th p by (metis list.distinct(1))
  from m p m' p' page0_startable env_hi_fetch ok_response_fields(1-3) [of stream_hi]
  show ?thesis by blast
qed

text \<open>
  The claim as stated fails: the new entry is not at the end of the list, where the
  earlier entry stays, and the earlier entry has left its place, the first.
\<close>

theorem history_append_counterexample:
  "sessionHistory (toggleRecognize_p000 env_hi page0) \<noteq>
     sessionHistory page0 @
       [\<lparr>h_id = Date_now env_hi, h_time = toLocaleTimeString env_hi, h_text = ''Hi''\<rparr>]
   \<and> sessionHistory (toggleRecognize_main env_hi page0) \<noteq>
     sessionHistory page0 @
       [\<lparr>h_id = Date_now env_hi, h_time = toLocaleTimeString env_hi, h_text = ''Hi''\<rparr>]
   \<and> h_text (last (sessionHistory (toggleRecognize_p000 env_hi page0))) = ''old''
   \<and> h_text (sessionHistory (toggleRecognize_p000 env_hi page0) ! 0) = ''Hi''
   \<and> h_text (sessionHistory page0 ! 0) = ''old''"
proof -
  have p: "sessionHistory (toggleRecognize_p000 env_hi page0) =
      [\<lparr>h_id = 2, h_time = ''10:00:05'', h_text = ''Hi''\<rparr>,
       \<lparr>h_id = 1, h_time = ''10:00:00'', h_text = ''old''\<rparr>]"
    by code_simp
  have m: "sessionHistory (toggleRecognize_main env_hi page0) =
      [\<lparr>h_id = 2, h_time = ''10:00:05'', h_text = ''Hi''\<rparr>,
       \<lparr>h_id = 1, h_time = ''10:00:00'', h_text = ''old''\<rparr>]"
    by code_simp
  have o: "sessionHistory page0 = [\<lparr>h_id = 1, h_time = ''10:00:00'', h_text = ''old''\<rparr>]"
    by (simp add: page0_def)
  show ?thesis
    unfolding p m o by (simp add: env_hi_def sample_env_def)
qed

subsection \<open>The two boxes\<close>

lemma panels_ok_set_boxes: "panels_ok (set_boxes b s)"
  by (simp add: panels_ok_def exclusive_def one_class_def set_boxes_def)

lemma panels_ok_toggleBox: "panels_ok (toggleBox boxType s)"
  by (simp add: panels_ok_def exclusive_def one_class_def toggleBox_def)

lemma panels_ok_hide: "panels_ok s \<Longrightarrow> panels_ok (hideReasoningContent_p000 s)"
  by (auto simp: panels_ok_def exclusive_def one_class_def hideReasoningContent_p000_def)

lemma panels_ok_autoSwitch: "panels_ok s \<Longrightarrow> panels_ok (autoSwitch_p000 s)"
  by (auto simp: panels_ok_def exclusive_def one_class_def autoSwitch_p000_def)

lemma show_not_blank:
  assumes "content \<noteq> []" and "trim content \<noteq> []"
  shows "panels_ok (showReasoningContent_p000 content s)"
    and "reasoning_box_expanded (showReasoningContent_p000 content s)"
    and "\<not> output_box_expanded (showReasoningContent_p000 content s)"
  using assms
  by (simp_all add: panels_ok_def exclusive_def one_class_def showReasoningContent_p000_def)

lemma panels_ok_show: "panels_ok s \<Longrightarrow> panels_ok (showReasoningContent_p000 c s)"
  by (auto simp: panels_ok_def exclusive_def one_class_def showReasoningContent_p000_def
      hideReasoningContent_p000_def Let_def)

lemma panels_ok_send_request: "panels_ok (send_request s) = panels_ok s"
  by (simp add: panels_ok_def exclusive_def one_class_def send_request_def updateStatus_def
      Let_def)

lemma panels_ok_before_fetch: "panels_ok (before_fetch_p000 s)"
  by (simp add: before_fetch_p000_def panels_ok_send_request panels_ok_set_boxes)

lemma panels_ok_parse_error: "panels_ok (page (parse_error r)) = panels_ok (page r)"
  by (simp add: panels_ok_def exclusive_def one_class_def parse_error_def)

lemma panels_ok_add_content:
  "add_content v r = Some r' \<Longrightarrow> panels_ok (page r') = panels_ok (page r)"
  by (auto simp: panels_ok_def exclusive_def one_class_def add_content_def
      split: option.splits)

lemma panels_ok_add_reasoning:
  "add_reasoning showReasoningContent_p000 v r = Some r' \<Longrightarrow> panels_ok (page r) \<Longrightarrow>
   panels_ok (page r')"
  by (auto simp: add_reasoning_def panels_ok_show split: option.splits)

lemma panels_ok_on_tagged:
  "panels_ok (page r) \<Longrightarrow> panels_ok (page (on_tagged_p000 j r))"
  unfolding on_tagged_p000_def Let_def
  by (auto simp: panels_ok_parse_error split: option.splits dest: panels_ok_add_reasoning)

lemma panels_ok_on_delta:
  assumes "panels_ok (page r)"
  shows "panels_ok (page (on_delta_p000 d r))"
proof -
  let ?c = "or_empty (get_prop d ''content'')"
  let ?g = "or_empty (get_prop d ''reasoning'')"
  let ?first = "if truthy ?g then add_reasoning showReasoningContent_p000 ?g r else Some r"
  show ?thesis
  proof (cases ?first)
    case None
    then show ?thesis
      using assms by (simp add: on_delta_p000_def Let_def panels_ok_parse_error)
  next
    case (Some r1)
    then have r1: "panels_ok (page r1)"
      using assms by (auto split: if_splits dest: panels_ok_add_reasoning)
    show ?thesis
    proof (cases "if truthy ?c then add_content ?c r1 else Some r1")
      case None
      then show ?thesis
        using Some r1 by (simp add: on_delta_p000_def Let_def panels_ok_parse_error)
    next
      case (Some r2)
      then have "panels_ok (page r2)"
        using r1 by (auto split: if_splits dest: panels_ok_add_content)
      then show ?thesis
        using Some \<open>?first = Some r1\<close> by (simp add: on_delta_p000_def Let_def)
    qed
  qed
qed

lemma panels_ok_on_payload:
  "panels_ok (page r) \<Longrightarrow> panels_ok (page (on_payload_p000 j r))"
  by (simp add: on_payload_p000_def panels_ok_parse_error panels_ok_on_tagged
      panels_ok_on_delta split: option.splits)

lemma panels_ok_for_line:
  "panels_ok (page r) \<Longrightarrow> panels_ok (page (for_line on_payload_p000 parse l r))"
  by (simp add: for_line_def Let_def panels_ok_parse_error panels_ok_on_payload
      split: option.splits)

lemma panels_ok_step:
  "panels_ok (page r) \<Longrightarrow> panels_ok (page (step_p000 parse ev r))"
  by (cases ev)
    (simp_all add: panels_ok_for_line panels_ok_toggleBox panels_ok_hide panels_ok_autoSwitch)

lemma panels_ok_steps:
  "panels_ok (page r) \<Longrightarrow> panels_ok (page (fold (step_p000 parse) evs r))"
  by (induction evs arbitrary: r) (simp_all add: panels_ok_step)

lemma panels_ok_fold_lines:
  "panels_ok (page r) \<Longrightarrow>
   panels_ok (page (fold (for_line on_payload_p000 parse) ls r))"
  by (induction ls arbitrary: r) (simp_all add: panels_ok_for_line)

lemma panels_ok_read_loop:
  "panels_ok (page r) \<Longrightarrow>
   panels_ok (page (snd (snd (read_loop dec (for_line on_payload_p000 parse) cs (d, b, r)))))"
proof (induction cs arbitrary: d b r)
  case Nil
  then show ?case by simp
next
  case (Cons c cs)
  obtain t d1 where c: "dec d c = (t, d1)" by (cases "dec d c")
  show ?case
    using Cons.prems by (simp add: c Let_def Cons.IH panels_ok_fold_lines)
qed

lemma panels_ok_read_stream:
  "panels_ok s \<Longrightarrow> panels_ok (page (read_stream on_payload_p000 e cs s))"
  by (simp add: read_stream_def panels_ok_read_loop)

lemma panels_ok_process_final: "panels_ok (page (process_final r)) = panels_ok (page r)"
  by (simp add: process_final_def panels_ok_def exclusive_def one_class_def Let_def)

lemma panels_ok_complete:
  "panels_ok (complete_p000 e b r) = panels_ok (page r)"
  by (simp add: complete_p000_def add_to_history_def updateStatus_def panels_ok_def
      exclusive_def one_class_def Let_def)

lemma panels_ok_catch: "panels_ok (catch_p000 err s) = panels_ok s"
  by (simp add: catch_p000_def updateStatus_def panels_ok_def exclusive_def one_class_def
      Let_def)

lemma panels_ok_finally: "panels_ok (finally_block s) = panels_ok s"
  by (simp add: finally_block_def panels_ok_def exclusive_def one_class_def)

text \<open>A run that starts ends with the boxes at opposite classes, however it ends.\<close>

lemma panels_ok_toggleRecognize:
  assumes "\<not> isRecognizing s" and "currentImages s \<noteq> []"
  shows "panels_ok (toggleRecognize_p000 e s)"
  using assms
  by (simp add: toggleRecognize_p000_def Let_def panels_ok_finally panels_ok_catch
      panels_ok_complete panels_ok_process_final panels_ok_read_stream
      panels_ok_before_fetch split: sum.splits option.splits)

text \<open>
  C2. Panel exclusivity, in \<^verbatim>\<open>src/unnamed/part_000\<close>. A box is expanded when its class
  list contains \<^verbatim>\<open>expanded\<close>. Setting the boxes at the start of a run leaves exactly one
  box expanded, whatever the page was before; so does a click on the header of either box,
  and so does showing reasoning content that is not blank, which expands the reasoning box
  and collapses the output box. Every event that touches the boxes (a line of the stream,
  a click on a header, hiding the reasoning content, the timeout at the end of the stream)
  keeps each box at exactly one of the classes \<^verbatim>\<open>expanded\<close> and \<^verbatim>\<open>collapsed\<close> and the two
  boxes at opposite ones. Hence, from the moment the request of a run is sent, exactly one
  box is expanded after any sequence of such events: at every instant after the first
  reasoning delta in particular. A whole run of \<^verbatim>\<open>toggleRecognize\<close> that starts also ends
  with exactly one box expanded, however it ends.
\<close>

theorem panel_exclusivity:
  "exclusive (set_boxes reasoningEnabled s)
   \<and> exclusive (toggleBox boxType s)
   \<and> (content \<noteq> [] \<and> trim content \<noteq> [] \<longrightarrow>
        exclusive (showReasoningContent_p000 content s)
        \<and> reasoning_box_expanded (showReasoningContent_p000 content s)
        \<and> \<not> output_box_expanded (showReasoningContent_p000 content s))
   \<and> (panels_ok (page r) \<longrightarrow> panels_ok (page (step_p000 parse ev r)))
   \<and> exclusive (page (fold (step_p000 parse) evs
        \<lparr>fullText = ft, reasoningText = rt, page = before_fetch_p000 s\<rparr>))
   \<and> (\<not> isRecognizing s \<and> currentImages s \<noteq> [] \<longrightarrow> exclusive (toggleRecognize_p000 e s))"
proof (intro conjI impI)
  show "exclusive (toggleRecognize_p000 e s)"
    if "\<not> isRecognizing s \<and> currentImages s \<noteq> []"
    using that panels_ok_toggleRecognize [of s e] by (simp add: panels_ok_def)
  show "exclusive (set_boxes reasoningEnabled s)"
    using panels_ok_set_boxes by (simp add: panels_ok_def)
  show "exclusive (toggleBox boxType s)"
    using panels_ok_toggleBox by (simp add: panels_ok_def)
  show "panels_ok (page (step_p000 parse ev r))" if "panels_ok (page r)"
    using that by (rule panels_ok_step)
  have "panels_ok (page (fold (step_p000 parse) evs
        \<lparr>fullText = ft, reasoningText = rt, page = before_fetch_p000 s\<rparr>))"
    by (rule panels_ok_steps) (simp add: panels_ok_before_fetch)
  then show "exclusive (page (fold (step_p000 parse) evs
        \<lparr>fullText = ft, reasoningText = rt, page = before_fetch_p000 s\<rparr>))"
    by (simp add: panels_ok_def)
next
  assume a: "content \<noteq> [] \<and> trim content \<noteq> []"
  then show "exclusive (showReasoningContent_p000 content s)"
    using show_not_blank(1) [of content s] by (simp add: panels_ok_def)
  from a show "reasoning_box_expanded (showReasoningContent_p000 content s)"
    using show_not_blank(2) [of content s] by simp
  from a show "\<not> output_box_expanded (showReasoningContent_p000 content s)"
    using show_not_blank(3) [of content s] by simp
qed

theorem panel_exclusivity_witness:
  "''think'' \<noteq> [] \<and> trim ''think'' \<noteq> []
   \<and> exclusive (showReasoningContent_p000 ''think'' page0)
   \<and> reasoning_box_expanded (showReasoningContent_p000 ''think'' page0)
   \<and> \<not> output_box_expanded (showReasoningContent_p000 ''think'' page0)
   \<and> panels_ok (page run_started)
   \<and> panels_ok (page (step_p000 sample_parse (Line (''data: '' @ payload_tagged)) run_started))
   \<and> exclusive (page (fold (step_p000 sample_parse)
        [Line (''data: '' @ payload_tagged), Line (''data: '' @ payload_hi),
         Toggle ''output'', Timeout]
        \<lparr>fullText = [], reasoningText = [], page = before_fetch_p000 page0\<rparr>))
   \<and> \<not> isRecognizing page0 \<and> currentImages page0 \<noteq> []
   \<and> exclusive (toggleRecognize_p000 env_hi page0)"
proof -
  have h1: "''think'' \<noteq> [] \<and> trim ''think'' \<noteq> []"
    by (simp add: trim_def is_ws_def)
  have h2: "panels_ok (page run_started)"
    by (simp add: run_started_def panels_ok_before_fetch)
  note th = panel_exclusivity [where reasoningEnabled = True and s = page0
      and boxType = "''output''" and content = "''think''" and r = run_started
      and parse = sample_parse and ev = "Line (''data: '' @ payload_tagged)"
      and evs = "[Line (''data: '' @ payload_tagged), Line (''data: '' @ payload_hi),
         Toggle ''output'', Timeout]" and ft = "[]" and rt = "[]" and e = env_hi]
  from th h1 h2 page0_startable show ?thesis by blast
qed

text \<open>
  One run, box by box: the request is sent with reasoning switched on, a reasoning delta
  and a content delta arrive, the user clicks the header of the output box, and the
  timeout fires.
\<close>

lemma panel_walk_example:
  "map (\<lambda>evs. (reasoning_box_expanded (page (fold (step_p000 sample_parse) evs run_started)),
               output_box_expanded (page (fold (step_p000 sample_parse) evs run_started))))
     [[],
      [Line (''data: '' @ payload_tagged)],
      [Line (''data: '' @ payload_tagged), Line (''data: '' @ payload_hi)],
      [Line (''data: '' @ payload_tagged), Line (''data: '' @ payload_hi), Toggle ''output''],
      [Line (''data: '' @ payload_tagged), Line (''data: '' @ payload_hi), Toggle ''output'',
       Toggle ''reasoning''],
      [Line (''data: '' @ payload_tagged), Line (''data: '' @ payload_hi), Toggle ''output'',
       Toggle ''reasoning'', Timeout]]
   = [(True, False), (True, False), (True, False), (False, True), (True, False),
      (False, True)]"
  by code_simp

subsection \<open>The two schemas\<close>

lemma for_line_payload:
  assumes "trim line \<noteq> []" and "trim line \<noteq> ''data: [DONE]''"
    and "startsWith (trim line) ''data: ''" and "parse (drop 6 (trim line)) = Some j"
  shows "for_line on_payload parse line r = on_payload j r"
  using assms by (simp add: for_line_def Let_def)

text \<open>
  In \<^verbatim>\<open>src/unnamed/part_000\<close> a decoded payload is dispatched on its type tag first:
  with the tag, a \<^verbatim>\<open>delta\<close> that is a string is appended to \<open>reasoningText\<close> and shown,
  and \<open>fullText\<close> is untouched.
\<close>

lemma on_payload_p000_tagged:
  assumes "get_prop j ''type'' = Some (JStr ''response.reasoning.delta'')"
    and "get_prop j ''delta'' = Some (JStr d)"
  shows "reasoningText (on_payload_p000 j r) = reasoningText r @ d"
    and "fullText (on_payload_p000 j r) = fullText r"
proof -
  have "j \<noteq> JNull" using assms(1) by auto
  then show "reasoningText (on_payload_p000 j r) = reasoningText r @ d"
    and "fullText (on_payload_p000 j r) = fullText r"
    using assms
    by (simp_all add: on_payload_p000_def on_tagged_p000_def add_reasoning_def Let_def)
qed

text \<open>
  Without the tag, a payload of the choices shape has the reasoning of its delta appended
  to \<open>reasoningText\<close> and the content appended to \<open>fullText\<close>, each when it is a string
  (an absent or falsy field counts as the empty string): the reasoning is appended whether
  or not there is content.
\<close>

lemma on_payload_p000_choices:
  assumes "get_prop j ''type'' \<noteq> Some (JStr ''response.reasoning.delta'')"
    and "choices_delta j = Some delta"
    and "or_empty (get_prop delta ''reasoning'') = JStr rs"
    and "or_empty (get_prop delta ''content'') = JStr c"
  shows "reasoningText (on_payload_p000 j r) = reasoningText r @ rs"
    and "fullText (on_payload_p000 j r) = fullText r @ c"
proof -
  have "j \<noteq> JNull" using assms(2) by (auto simp: choices_delta_def)
  then show "reasoningText (on_payload_p000 j r) = reasoningText r @ rs"
    and "fullText (on_payload_p000 j r) = fullText r @ c"
    using assms
    by (simp_all add: on_payload_p000_def on_delta_p000_def add_reasoning_def
        add_content_def Let_def)
qed

text \<open>The same for a line of the stream that carries the prefix and whose payload decodes.\<close>

lemma for_line_p000_dispatch:
  assumes "trim line \<noteq> ''data: [DONE]''" and "startsWith (trim line) ''data: ''"
    and "parse (drop 6 (trim line)) = Some j"
  shows "get_prop j ''type'' = Some (JStr ''response.reasoning.delta'') \<Longrightarrow>
         get_prop j ''delta'' = Some (JStr d) \<Longrightarrow>
         reasoningText (for_line on_payload_p000 parse line r) = reasoningText r @ d
         \<and> fullText (for_line on_payload_p000 parse line r) = fullText r"
    and "get_prop j ''type'' \<noteq> Some (JStr ''response.reasoning.delta'') \<Longrightarrow>
         choices_delta j = Some delta \<Longrightarrow>
         or_empty (get_prop delta ''reasoning'') = JStr rs \<Longrightarrow>
         or_empty (get_prop delta ''content'') = JStr c \<Longrightarrow>
         reasoningText (for_line on_payload_p000 parse line r) = reasoningText r @ rs
         \<and> fullText (for_line on_payload_p000 parse line r) = fullText r @ c"
proof -
  have "trim line \<noteq> []"
    using assms(2) by (auto simp: startsWith_def)
  then have line: "for_line on_payload_p000 parse line r = on_payload_p000 j r"
    using assms by (rule for_line_payload)
  show "reasoningText (for_line on_payload_p000 parse line r) = reasoningText r @ d
         \<and> fullText (for_line on_payload_p000 parse line r) = fullText r"
    if "get_prop j ''type'' = Some (JStr ''response.reasoning.delta'')"
      and "get_prop j ''delta'' = Some (JStr d)"
    unfolding line using that by (simp add: on_payload_p000_tagged)
  show "reasoningText (for_line on_payload_p000 parse line r) = reasoningText r @ rs
         \<and> fullText (for_line on_payload_p000 parse line r) = fullText r @ c"
    if "get_prop j ''type'' \<noteq> Some (JStr ''response.reasoning.delta'')"
      and "choices_delta j = Some delta"
      and "or_empty (get_prop delta ''reasoning'') = JStr rs"
      and "or_empty (get_prop delta ''content'') = JStr c"
    unfolding line using that on_payload_p000_choices [of j delta rs c r] by simp
qed

text \<open>
  C3. Dual-schema dispatch. \<^verbatim>\<open>src/unnamed/part_000\<close> does what the claim says (the
  lemmas above); \<^verbatim>\<open>src/static/js/main.js\<close> does not. There the reasoning of a delta is
  read only inside \<^verbatim>\<open>if (content)\<close>, so the payload
  \<^verbatim>\<open>{"choices":[{"delta":{"content":"","reasoning":"think"}}]}\<close> leaves \<open>reasoningText\<close>
  empty, where the other file gives \<^verbatim>\<open>think\<close>; and a payload with the type tag has no
  \<^verbatim>\<open>choices\<close>, so \<^verbatim>\<open>json.choices[0]\<close> throws and the line ends in the \<^verbatim>\<open>catch\<close> with
  nothing appended.
\<close>

theorem main_js_drops_reasoning:
  "reasoningText (for_line on_payload_main sample_parse (''data: '' @ payload_think) run0) = []
   \<and> for_line on_payload_main sample_parse (''data: '' @ payload_think) run0 = run0
   \<and> reasoningText (for_line on_payload_p000 sample_parse (''data: '' @ payload_think) run0)
       = ''think''
   \<and> reasoningText (for_line on_payload_main sample_parse (''data: '' @ payload_tagged) run0)
       = []
   \<and> for_line on_payload_main sample_parse (''data: '' @ payload_tagged) run0
       = parse_error run0
   \<and> reasoningText (for_line on_payload_p000 sample_parse (''data: '' @ payload_tagged) run0)
       = ''think''"
  by code_simp

subsection \<open>Cancelling\<close>

text \<open>
  When the user presses Stop, \<^verbatim>\<open>abort()\<close> makes the pending \<^verbatim>\<open>await\<close> reject with an
  error named \<^verbatim>\<open>AbortError\<close>. If that is the \<^verbatim>\<open>fetch\<close>, the run ends with the status
  \<^verbatim>\<open>Stopped\<close> (shown with the class \<^verbatim>\<open>error\<close>), the box indicators plain, no history
  entry and the button back at \<^verbatim>\<open>Start\<close>.
\<close>

lemma cancel_while_fetching:
  assumes "\<not> isRecognizing s" and "currentImages s \<noteq> []"
    and "fetch_result e = Inl err" and "err_name err = ''AbortError''"
  shows "status_text (toggleRecognize_main e s) = ''Stopped''"
    and "status_text (toggleRecognize_p000 e s) = ''Stopped''"
    and "status_class (toggleRecognize_main e s) = ''error''"
    and "status_class (toggleRecognize_p000 e s) = ''error''"
    and "reasoning_status (toggleRecognize_p000 e s) = ''box-status''"
    and "output_status (toggleRecognize_p000 e s) = ''box-status''"
    and "sessionHistory (toggleRecognize_main e s) = sessionHistory s"
    and "sessionHistory (toggleRecognize_p000 e s) = sessionHistory s"
    and "\<not> isRecognizing (toggleRecognize_main e s)"
    and "\<not> isRecognizing (toggleRecognize_p000 e s)"
    and "btn_text (toggleRecognize_main e s) = ''Start''"
    and "btn_text (toggleRecognize_p000 e s) = ''Start''"
  using assms
  by (simp_all add: toggleRecognize_main_def toggleRecognize_p000_def Let_def
      catch_main_def catch_p000_def finally_block_def updateStatus_def
      before_fetch_main_fields before_fetch_p000_fields)

text \<open>The same when it is a read of the stream that rejects, whatever was read before.\<close>

lemma cancel_while_reading:
  assumes "\<not> isRecognizing s" and "currentImages s \<noteq> []"
    and "fetch_result e = Inr resp" and "resp_ok resp" and "\<not> resp_body_null resp"
    and "resp_end resp = Some err" and "err_name err = ''AbortError''"
  shows "status_text (toggleRecognize_main e s) = ''Stopped''"
    and "status_text (toggleRecognize_p000 e s) = ''Stopped''"
    and "status_class (toggleRecognize_main e s) = ''error''"
    and "status_class (toggleRecognize_p000 e s) = ''error''"
    and "reasoning_status (toggleRecognize_p000 e s) = ''box-status''"
    and "output_status (toggleRecognize_p000 e s) = ''box-status''"
    and "sessionHistory (toggleRecognize_main e s) = sessionHistory s"
    and "sessionHistory (toggleRecognize_p000 e s) = sessionHistory s"
    and "\<not> isRecognizing (toggleRecognize_main e s)"
    and "\<not> isRecognizing (toggleRecognize_p000 e s)"
    and "btn_text (toggleRecognize_main e s) = ''Start''"
    and "btn_text (toggleRecognize_p000 e s) = ''Start''"
proof -
  have m: "untouched (before_fetch_main s)
      (page (read_stream on_payload_main e (resp_chunks resp) (before_fetch_main s)))"
    by (rule untouched_read_stream_main)
  have p: "untouched (before_fetch_p000 s)
      (page (read_stream on_payload_p000 e (resp_chunks resp) (before_fetch_p000 s)))"
    by (rule untouched_read_stream_p000)
  show "status_text (toggleRecognize_main e s) = ''Stopped''"
    and "status_class (toggleRecognize_main e s) = ''error''"
    and "sessionHistory (toggleRecognize_main e s) = sessionHistory s"
    and "\<not> isRecognizing (toggleRecognize_main e s)"
    and "btn_text (toggleRecognize_main e s) = ''Start''"
    using assms m
    by (simp_all add: toggleRecognize_main_def Let_def catch_main_def finally_block_def
        updateStatus_def untouched_def before_fetch_main_fields)
  show "status_text (toggleRecognize_p000 e s) = ''Stopped''"
    and "status_class (toggleRecognize_p000 e s) = ''error''"
    and "reasoning_status (toggleRecognize_p000 e s) = ''box-status''"
    and "output_status (toggleRecognize_p000 e s) = ''box-status''"
    and "sessionHistory (toggleRecognize_p000 e s) = sessionHistory s"
    and "\<not> isRecognizing (toggleRecognize_p000 e s)"
    and "btn_text (toggleRecognize_p000 e s) = ''Start''"
    using assms p
    by (simp_all add: toggleRecognize_p000_def Let_def catch_p000_def finally_block_def
        updateStatus_def untouched_def before_fetch_p000_fields)
qed

text \<open>
  If instead the pending \<^verbatim>\<open>await\<close> is that of \<^verbatim>\<open>response.json()\<close>, for a response that
  is not ok, the rejection is swallowed whatever its name, and the run ends with the
  status \<^verbatim>\<open>Error: HTTP\<close> and the status code.
\<close>

lemma rejection_of_error_body_is_swallowed:
  assumes "\<not> isRecognizing s" and "currentImages s \<noteq> []"
    and "fetch_result e = Inr resp" and "\<not> resp_ok resp" and "resp_json resp = Inl err"
  shows "status_text (toggleRecognize_main e s) = ''Error: HTTP '' @ show_nat (resp_status resp)"
    and "status_text (toggleRecognize_p000 e s) = ''Error: HTTP '' @ show_nat (resp_status resp)"
    and "reasoning_status (toggleRecognize_p000 e s) = ''box-status error''"
    and "output_status (toggleRecognize_p000 e s) = ''box-status error''"
  using assms
  by (simp_all add: toggleRecognize_main_def toggleRecognize_p000_def Let_def http_error_def
      catch_main_def catch_p000_def finally_block_def updateStatus_def)

text \<open>
  C6. Cancellation outcome. The claim holds for a cancel that lands on the \<^verbatim>\<open>fetch\<close> or
  on a read of the stream (lemmas \<open>cancel_while_fetching\<close> and
  \<open>cancel_while_reading\<close>; the status indicator then reads
  \<^verbatim>\<open>Stopped\<close> and carries the class \<^verbatim>\<open>error\<close>). It fails for a cancel that lands on
  \<^verbatim>\<open>response.json()\<close>, which is awaited for a response that is not ok: its
  \<^verbatim>\<open>.catch(() => ({}))\<close> swallows the abort error, \<^verbatim>\<open>new Error(`HTTP 500`)\<close> is thrown in
  its place, and the run ends with the status \<^verbatim>\<open>Error: HTTP 500\<close> and both box indicators
  at \<^verbatim>\<open>box-status error\<close>, in both files.
\<close>

theorem cancel_in_error_body_ends_in_error:
  "fetch_result env_abort_in_error_body = Inr response_500_aborted
   \<and> resp_json response_500_aborted = Inl abort_error
   \<and> err_name abort_error = ''AbortError''
   \<and> status_text (toggleRecognize_main env_abort_in_error_body page0) = ''Error: HTTP 500''
   \<and> status_text (toggleRecognize_p000 env_abort_in_error_body page0) = ''Error: HTTP 500''
   \<and> reasoning_status (toggleRecognize_p000 env_abort_in_error_body page0)
       = ''box-status error''
   \<and> output_status (toggleRecognize_p000 env_abort_in_error_body page0)
       = ''box-status error''"
  by code_simp

end
